theory Spec2Isabelle
  imports Complex_Main "HOL-Library.Log_Nat"
begin

section \<open>Numbers\<close>

text \<open>
  A TypeScript \<open>number\<close> is an IEEE 754 binary64 value. It is modelled by its exact
  value: a rational for a finite double, the two infinities, and NaN. Every arithmetic
  operation computes the exact result and rounds it to the nearest double, ties to the even
  significand, as the hardware does; prices with decimals, integers beyond \<open>2^53\<close>,
  overflow to infinity and gradual underflow are all within the model. The two zeros
  \<open>+0\<close> and \<open>-0\<close> are one value here: the program only adds, subtracts, multiplies and
  compares numbers, and none of these tells them apart.
\<close>

datatype number = Fin rat | PosInf | NegInf | NaN

text \<open>\<open>ilog2 r\<close> is the binary exponent of a positive rational: \<open>2^e \<le> r < 2^(e+1)\<close>.\<close>

definition ilog2 :: "rat \<Rightarrow> int" where
  "ilog2 r = (if 1 \<le> r then bitlen \<lfloor>r\<rfloor> - 1 else - bitlen (\<lceil>1 / r\<rceil> - 1))"

text \<open>
  The exponent of the unit in the last place: 53 significant bits, and no smaller unit
  than that of the subnormal doubles, \<open>2^-1074\<close>.
\<close>

definition ulp_exp :: "rat \<Rightarrow> int" where
  "ulp_exp r = max (ilog2 \<bar>r\<bar> - 52) (- 1074)"

definition round_half_even :: "rat \<Rightarrow> int" where
  "round_half_even x =
     (let f = \<lfloor>x\<rfloor>; d = x - of_int f in
      if d < 1 / 2 then f else if 1 / 2 < d then f + 1 else if even f then f else f + 1)"

definition rnd :: "rat \<Rightarrow> number" where
  "rnd r =
     (if r = 0 then Fin 0
      else let u = ulp_exp r; v = of_int (round_half_even (r / 2 powi u)) * 2 powi u in
        if 2 ^ 1024 \<le> v then PosInf else if v \<le> - (2 ^ 1024) then NegInf else Fin v)"

definition is_double :: "number \<Rightarrow> bool" where
  "is_double a = (case a of Fin r \<Rightarrow> rnd r = Fin r | _ \<Rightarrow> True)"

fun num_neg :: "number \<Rightarrow> number" where
  "num_neg (Fin x) = Fin (- x)"
| "num_neg PosInf = NegInf"
| "num_neg NegInf = PosInf"
| "num_neg NaN = NaN"

fun num_add :: "number \<Rightarrow> number \<Rightarrow> number" where
  "num_add NaN _ = NaN"
| "num_add _ NaN = NaN"
| "num_add (Fin x) (Fin y) = rnd (x + y)"
| "num_add PosInf NegInf = NaN"
| "num_add NegInf PosInf = NaN"
| "num_add PosInf _ = PosInf"
| "num_add _ PosInf = PosInf"
| "num_add NegInf _ = NegInf"
| "num_add _ NegInf = NegInf"

definition num_sub :: "number \<Rightarrow> number \<Rightarrow> number" where
  "num_sub a b = num_add a (num_neg b)"

fun num_mul :: "number \<Rightarrow> number \<Rightarrow> number" where
  "num_mul NaN _ = NaN"
| "num_mul _ NaN = NaN"
| "num_mul (Fin x) (Fin y) = rnd (x * y)"
| "num_mul (Fin x) PosInf = (if x = 0 then NaN else if 0 < x then PosInf else NegInf)"
| "num_mul (Fin x) NegInf = (if x = 0 then NaN else if 0 < x then NegInf else PosInf)"
| "num_mul PosInf (Fin y) = (if y = 0 then NaN else if 0 < y then PosInf else NegInf)"
| "num_mul NegInf (Fin y) = (if y = 0 then NaN else if 0 < y then NegInf else PosInf)"
| "num_mul PosInf PosInf = PosInf"
| "num_mul PosInf NegInf = NegInf"
| "num_mul NegInf PosInf = NegInf"
| "num_mul NegInf NegInf = PosInf"

text \<open>The comparisons \<open>a < b\<close> and \<open>a > b\<close>: false as soon as one side is NaN.\<close>

fun num_less :: "number \<Rightarrow> number \<Rightarrow> bool" where
  "num_less NaN _ = False"
| "num_less _ NaN = False"
| "num_less (Fin x) (Fin y) = (x < y)"
| "num_less (Fin _) PosInf = True"
| "num_less (Fin _) NegInf = False"
| "num_less PosInf _ = False"
| "num_less NegInf NegInf = False"
| "num_less NegInf _ = True"

definition num_greater :: "number \<Rightarrow> number \<Rightarrow> bool" where
  "num_greater a b = num_less b a"

text \<open>
  The exact value of a finite number, and the numbers that are integers; \<open>value_of\<close> is
  only meant for finite numbers.
\<close>

fun value_of :: "number \<Rightarrow> rat" where
  "value_of (Fin r) = r"
| "value_of _ = 0"

fun is_finite :: "number \<Rightarrow> bool" where
  "is_finite (Fin _) = True"
| "is_finite _ = False"

definition is_integer :: "number \<Rightarrow> bool" where
  "is_integer a = (is_finite a \<and> of_int \<lfloor>value_of a\<rfloor> = value_of a)"

section \<open>Domain layer\<close>

text \<open>
  The storefront's domain classes are embedded as records, and every method as a function
  from the object's state (and the arguments) to an outcome: the exception thrown, if any,
  paired with the state the object is left in.

  Several classes have fields called \<open>id\<close>, \<open>name\<close> or \<open>price\<close>; record fields
  are global names, so those of \<open>Product\<close>, \<open>Order\<close> and \<open>User\<close> carry the class name
  as a prefix.
\<close>

datatype error =
    StockInsuficiente                   \<comment> \<open>"Stock insuficiente"\<close>
  | OrdenNoPendiente                    \<comment> \<open>"La orden no esta en estado pendiente"\<close>
  | OrdenNoEnProcesamiento              \<comment> \<open>"La orden no esta en estado de procesamiento"\<close>
  | OrdenCompletada                     \<comment> \<open>"No se puede cancelar una orden completada"\<close>
  | ProductoNoEncontrado string         \<comment> \<open>"Producto <productId> no encontrado"\<close>
  | StockInsuficienteProducto string    \<comment> \<open>"Stock insuficiente para el producto <name>"\<close>
  | UsuarioNoEncontrado                 \<comment> \<open>"Usuario no encontrado"\<close>
  | MontoNegativo                       \<comment> \<open>"El monto no puede ser negativo"\<close>
  | CodigoMoneda                        \<comment> \<open>"El codigo de moneda debe tener 3 caracteres"\<close>
  | MonedasDiferentes                   \<comment> \<open>"No se pueden sumar montos de diferentes monedas"\<close>
  | ServicioExterno string              \<comment> \<open>a rejection coming from the authentication service\<close>

type_synonym 'a outcome = "error option \<times> 'a"

subsection \<open>Product\<close>

record Product =
  product_id :: string
  product_name :: string
  product_price :: number
  stock :: number

definition decreaseStock :: "Product \<Rightarrow> number \<Rightarrow> Product outcome" where
  "decreaseStock p q =
     (if num_greater q (stock p) then (Some StockInsuficiente, p)
      else (None, p\<lparr>stock := num_sub (stock p) q\<rparr>))"

definition increaseStock :: "Product \<Rightarrow> number \<Rightarrow> Product outcome" where
  "increaseStock p q = (None, p\<lparr>stock := num_add (stock p) q\<rparr>)"

subsection \<open>Order and OrderItem\<close>

record OrderItem =
  productId :: string
  quantity :: number
  price :: number

datatype OrderStatus = Pending | Processing | Completed | Cancelled

record Order =
  order_id :: string
  customerId :: string
  status :: OrderStatus
  items :: "OrderItem list"
  totalAmount :: number

text \<open>The constructor: no items, total 0, and the status given (\<open>pending\<close> by default).\<close>

definition new_Order_with :: "string \<Rightarrow> string \<Rightarrow> OrderStatus \<Rightarrow> Order" where
  "new_Order_with i c s =
     \<lparr>order_id = i, customerId = c, status = s, items = [], totalAmount = Fin 0\<rparr>"

definition new_Order :: "string \<Rightarrow> string \<Rightarrow> Order" where
  "new_Order i c = new_Order_with i c Pending"

text \<open>
  The source's \<open>reduce\<close>: a left fold that starts at 0 and adds \<open>quantity * price\<close> of
  each item in turn, every product and every partial sum rounded to a double.
\<close>

definition reduce_total :: "OrderItem list \<Rightarrow> number" where
  "reduce_total xs =
     foldl (\<lambda>total item. num_add total (num_mul (quantity item) (price item))) (Fin 0) xs"

definition recalculateTotal :: "Order \<Rightarrow> Order" where
  "recalculateTotal ord = ord\<lparr>totalAmount := reduce_total (items ord)\<rparr>"

definition addItem :: "Order \<Rightarrow> OrderItem \<Rightarrow> Order outcome" where
  "addItem ord item = (None, recalculateTotal (ord\<lparr>items := items ord @ [item]\<rparr>))"

definition removeItem :: "Order \<Rightarrow> string \<Rightarrow> Order outcome" where
  "removeItem ord pid =
     (None, recalculateTotal (ord\<lparr>items := filter (\<lambda>item. productId item \<noteq> pid) (items ord)\<rparr>))"

definition process :: "Order \<Rightarrow> Order outcome" where
  "process ord =
     (if status ord \<noteq> Pending then (Some OrdenNoPendiente, ord)
      else (None, ord\<lparr>status := Processing\<rparr>))"

definition complete :: "Order \<Rightarrow> Order outcome" where
  "complete ord =
     (if status ord \<noteq> Processing then (Some OrdenNoEnProcesamiento, ord)
      else (None, ord\<lparr>status := Completed\<rparr>))"

definition cancel :: "Order \<Rightarrow> Order outcome" where
  "cancel ord =
     (if status ord = Completed then (Some OrdenCompletada, ord)
      else (None, ord\<lparr>status := Cancelled\<rparr>))"

text \<open>
  The sum the data model relates \<open>totalAmount\<close> to, in exact arithmetic:
  \<open>quantity * price\<close> summed over the items. \<open>items_abs_sum\<close> adds the magnitudes of the
  same products, and \<open>integer_items\<close> says that every quantity and price is an integer.
  An order is \<open>total_consistent\<close> when its \<open>totalAmount\<close> is what \<open>recalculateTotal\<close> would
  store for its items.
\<close>

definition items_sum :: "OrderItem list \<Rightarrow> rat" where
  "items_sum xs = sum_list (map (\<lambda>item. value_of (quantity item) * value_of (price item)) xs)"

definition items_abs_sum :: "OrderItem list \<Rightarrow> rat" where
  "items_abs_sum xs =
     sum_list (map (\<lambda>item. \<bar>value_of (quantity item) * value_of (price item)\<bar>) xs)"

definition integer_items :: "OrderItem list \<Rightarrow> bool" where
  "integer_items xs = list_all (\<lambda>item. is_integer (quantity item) \<and> is_integer (price item)) xs"

definition total_consistent :: "Order \<Rightarrow> bool" where
  "total_consistent ord = (totalAmount ord = reduce_total (items ord))"

text \<open>The calls that change the item list, as a datatype: a sequence of calls is a list.\<close>

datatype ItemCall = AddItem OrderItem | RemoveItem string

fun call :: "Order \<Rightarrow> ItemCall \<Rightarrow> Order" where
  "call ord (AddItem item) = snd (addItem ord item)"
| "call ord (RemoveItem pid) = snd (removeItem ord pid)"

definition calls :: "Order \<Rightarrow> ItemCall list \<Rightarrow> Order" where
  "calls ord cs = foldl call ord cs"

text \<open>
  The three status-changing methods as one function of the method called, and the
  transitions the state machine is described by:
  pending \<rightarrow> processing \<rightarrow> completed, and pending | processing \<rightarrow> cancelled.
\<close>

datatype StatusCall = Process | Complete | Cancel

fun status_call :: "Order \<Rightarrow> StatusCall \<Rightarrow> Order outcome" where
  "status_call ord Process = process ord"
| "status_call ord Complete = complete ord"
| "status_call ord Cancel = cancel ord"

definition allowed_transitions :: "(OrderStatus \<times> OrderStatus) set" where
  "allowed_transitions =
     {(Pending, Processing), (Processing, Completed), (Pending, Cancelled), (Processing, Cancelled)}"

subsection \<open>Money\<close>

text \<open>
  \<open>Money\<close> has a private constructor; values are made by the validating factory
  \<open>Money.create\<close>, which returns the value or throws.
\<close>

record Money =
  amount :: number
  currency :: string

definition Money_create :: "number \<Rightarrow> string \<Rightarrow> error + Money" where
  "Money_create a c =
     (if num_less a (Fin 0) then Inl MontoNegativo
      else if length c \<noteq> 3 then Inl CodigoMoneda
      else Inr \<lparr>amount = a, currency = c\<rparr>)"

definition Money_add :: "Money \<Rightarrow> Money \<Rightarrow> error + Money" where
  "Money_add this other =
     (if currency this \<noteq> currency other then Inl MonedasDiferentes
      else Money_create (num_add (amount this) (amount other)) (currency this))"

text \<open>Evaluating \<open>f(e)\<close> where \<open>e\<close> may throw: the exception of \<open>e\<close> propagates.\<close>

definition and_then :: "error + 'a \<Rightarrow> ('a \<Rightarrow> error + 'b) \<Rightarrow> error + 'b" where
  "and_then r f = (case r of Inl e \<Rightarrow> Inl e | Inr v \<Rightarrow> f v)"

text \<open>
  The data model describes the currency of a \<open>Money\<close> as a 3-letter code. That reading
  of a well-formed code, to compare with what the factory checks:
\<close>

definition is_letter :: "char \<Rightarrow> bool" where
  "is_letter ch =
     (ch \<in> set ''ABCDEFGHIJKLMNOPQRSTUVWXYZ'' \<or> ch \<in> set ''abcdefghijklmnopqrstuvwxyz'')"

definition three_letter_code :: "string \<Rightarrow> bool" where
  "three_letter_code c = (length c = 3 \<and> list_all is_letter c)"

subsection \<open>User\<close>

datatype Role = Customer | Admin

record User =
  user_id :: string
  email :: string
  user_name :: string
  role :: Role

section \<open>Repositories and the authentication service\<close>

text \<open>
  The use cases reach the outside through the repository interfaces. The backing store is
  modelled as what a repository answers: products and orders by id (the REST repositories
  read \<open>/products/:id\<close> and write with a PUT to the path of the object's own id), users by
  email. The authentication service is an external capability: its answer is a parameter
  \<open>svc\<close>, and every invocation of \<open>authenticate\<close> is recorded in \<open>auth_calls\<close>.
\<close>

record world =
  products :: "string \<rightharpoonup> Product"
  orders :: "string \<rightharpoonup> Order"
  users :: "string \<rightharpoonup> User"
  auth_calls :: "(string \<times> string) list"

definition product_findById :: "world \<Rightarrow> string \<Rightarrow> Product option" where
  "product_findById w pid = products w pid"

definition product_save :: "world \<Rightarrow> Product \<Rightarrow> world" where
  "product_save w p = w\<lparr>products := (products w)(product_id p \<mapsto> p)\<rparr>"

definition order_save :: "world \<Rightarrow> Order \<Rightarrow> world" where
  "order_save w ord = w\<lparr>orders := (orders w)(order_id ord \<mapsto> ord)\<rparr>"

definition findByEmail :: "world \<Rightarrow> string \<Rightarrow> User option" where
  "findByEmail w e = users w e"

definition authenticate ::
  "(string \<Rightarrow> string \<Rightarrow> error + string) \<Rightarrow> world \<Rightarrow> string \<Rightarrow> string \<Rightarrow> (error + string) \<times> world" where
  "authenticate svc w e pw = (svc e pw, w\<lparr>auth_calls := auth_calls w @ [(e, pw)]\<rparr>)"

section \<open>Application layer\<close>

record OrderRequest =
  req_productId :: string
  req_quantity :: number

text \<open>
  The body of the \<open>for\<close> loop of \<open>CreateOrderUseCase.execute\<close>, iterated over the
  requests. A throw leaves the loop with the world as it is at that moment: nothing undoes
  the saves made for earlier requests.
\<close>

fun execute_loop :: "world \<Rightarrow> Order \<Rightarrow> OrderRequest list \<Rightarrow> (error + Order) \<times> world" where
  "execute_loop w ord [] = (Inr ord, w)"
| "execute_loop w ord (item # rest) =
     (case product_findById w (req_productId item) of
        None \<Rightarrow> (Inl (ProductoNoEncontrado (req_productId item)), w)
      | Some product \<Rightarrow>
          if num_less (stock product) (req_quantity item)
          then (Inl (StockInsuficienteProducto (product_name product)), w)
          else (case decreaseStock product (req_quantity item) of
                  (Some e, _) \<Rightarrow> (Inl e, w)
                | (None, product') \<Rightarrow>
                    (case addItem ord \<lparr>productId = product_id product',
                                       quantity = req_quantity item,
                                       price = product_price product'\<rparr> of
                       (Some e, _) \<Rightarrow> (Inl e, product_save w product')
                     | (None, ord') \<Rightarrow> execute_loop (product_save w product') ord' rest)))"

text \<open>
  \<open>now\<close> is the string of \<open>Date.now()\<close> at the call, which becomes the order's id.
\<close>

definition CreateOrder_execute ::
  "world \<Rightarrow> string \<Rightarrow> string \<Rightarrow> OrderRequest list \<Rightarrow> (error + Order) \<times> world" where
  "CreateOrder_execute w now cid reqs =
     (case execute_loop w (new_Order now cid) reqs of
        (Inl e, w') \<Rightarrow> (Inl e, w')
      | (Inr ord, w') \<Rightarrow> (Inr ord, order_save w' ord))"

definition AuthenticateUser_execute ::
  "(string \<Rightarrow> string \<Rightarrow> error + string) \<Rightarrow> world \<Rightarrow> string \<Rightarrow> string \<Rightarrow> (error + string) \<times> world" where
  "AuthenticateUser_execute svc w e pw =
     (case findByEmail w e of
        None \<Rightarrow> (Inl UsuarioNoEncontrado, w)
      | Some user \<Rightarrow> authenticate svc w e pw)"

text \<open>
  A request cannot be served in a world when its product is absent from the product
  repository or its quantity exceeds that product's stock there.
\<close>

definition unavailable :: "world \<Rightarrow> OrderRequest \<Rightarrow> bool" where
  "unavailable w item =
     (case product_findById w (req_productId item) of
        None \<Rightarrow> True
      | Some product \<Rightarrow> num_greater (req_quantity item) (stock product))"

section \<open>Rounding to a double\<close>

text \<open>
  Facts about the number model: \<open>ilog2\<close> is the binary exponent; a value is rounded as
  soon as its exponent, the rounding of its significand and the range check are known;
  every integer of magnitude up to \<open>2^53\<close> is a double; rounding never turns a
  non-negative value into a negative one; and a rounded value is within half a unit in the
  last place of the exact one.
\<close>

lemma ilog2_bounds:
  assumes "0 < r"
  shows "2 powi (ilog2 r) \<le> r \<and> r < 2 powi (ilog2 r + 1)"
proof (cases "1 \<le> r")
  case True
  define n where "n = \<lfloor>r\<rfloor>"
  from True have n: "0 < n" by (simp add: n_def)
  from bitlen_bounds [OF n] have lo: "2 ^ nat (bitlen n - 1) \<le> n" and hi: "n < 2 ^ nat (bitlen n)"
    by auto
  from n have b: "1 \<le> bitlen n" by (simp add: bitlen_ge_iff_power)
  have k: "ilog2 r = bitlen n - 1" using True by (simp add: ilog2_def n_def)
  have "(2::rat) powi (bitlen n - 1) = of_int (2 ^ nat (bitlen n - 1))"
    using b by (simp add: power_int_nonneg_exp)
  also have "\<dots> \<le> of_int n" using lo by (simp only: of_int_le_iff)
  also have "\<dots> \<le> r" by (simp add: n_def)
  finally have 1: "2 powi (ilog2 r) \<le> r" by (simp add: k)
  from hi have "n + 1 \<le> 2 ^ nat (bitlen n)" by simp
  then have "(of_int (n + 1) :: rat) \<le> of_int (2 ^ nat (bitlen n))" by (simp only: of_int_le_iff)
  moreover have "r < of_int (n + 1)" unfolding n_def by linarith
  ultimately have "r < of_int (2 ^ nat (bitlen n))" by linarith
  also have "\<dots> = 2 powi (bitlen n)" using b by (simp add: power_int_nonneg_exp)
  finally have 2: "r < 2 powi (ilog2 r + 1)" by (simp add: k)
  from 1 2 show ?thesis ..
next
  case False
  define s where "s = 1 / r"
  define t where "t = \<lceil>s\<rceil> - 1"
  from False assms have s1: "1 < s" by (simp add: s_def)
  then have t: "0 < t" unfolding t_def by linarith
  from bitlen_bounds [OF t] have lo: "2 ^ nat (bitlen t - 1) \<le> t" and hi: "t < 2 ^ nat (bitlen t)"
    by auto
  from t have b: "1 \<le> bitlen t" by (simp add: bitlen_ge_iff_power)
  have k: "ilog2 r = - bitlen t" using False by (simp add: ilog2_def t_def s_def)
  have r: "r = 1 / s" by (simp add: s_def)
  from hi have "t + 1 \<le> 2 ^ nat (bitlen t)" by simp
  then have "(of_int (t + 1) :: rat) \<le> of_int (2 ^ nat (bitlen t))" by (simp only: of_int_le_iff)
  moreover have "s \<le> of_int (t + 1)" unfolding t_def by simp
  ultimately have "s \<le> of_int (2 ^ nat (bitlen t))" by linarith
  also have "\<dots> = 2 powi (bitlen t)" using b by (simp add: power_int_nonneg_exp)
  finally have "s \<le> 2 powi (bitlen t)" .
  with s1 have "1 / (2 powi (bitlen t)) \<le> 1 / s"
    by (intro divide_left_mono) (auto intro: mult_pos_pos)
  moreover have "2 powi (ilog2 r) = 1 / (2::rat) powi (bitlen t)"
    by (simp add: k power_int_minus_divide)
  moreover have "1 / s = r" by (simp add: s_def)
  ultimately have 1: "2 powi (ilog2 r) \<le> r" by simp
  have "(of_int (2 ^ nat (bitlen t - 1)) :: rat) \<le> of_int t" using lo by (simp only: of_int_le_iff)
  moreover have "of_int t < s" unfolding t_def by linarith
  ultimately have "(of_int (2 ^ nat (bitlen t - 1)) :: rat) < s" by linarith
  moreover have "(of_int (2 ^ nat (bitlen t - 1)) :: rat) = 2 powi (bitlen t - 1)"
    using b by (simp add: power_int_nonneg_exp)
  ultimately have lt: "2 powi (bitlen t - 1) < s" by simp
  have "1 / s < 1 / (2 powi (bitlen t - 1))"
    using lt s1 by (intro divide_strict_left_mono) (auto intro!: mult_pos_pos)
  also have "\<dots> = 2 powi (- (bitlen t - 1))" by (simp only: power_int_minus_divide)
  finally have "1 / s < 2 powi (- (bitlen t - 1))" .
  moreover have "1 / s = r" by (simp add: s_def)
  moreover have "ilog2 r + 1 = - (bitlen t - 1)" by (simp add: k)
  ultimately have 2: "r < 2 powi (ilog2 r + 1)" by simp
  from 1 2 show ?thesis ..
qed

lemma ilog2_unique:
  assumes "2 powi k \<le> r" and "r < 2 powi (k + 1)"
  shows "ilog2 r = k"
proof -
  have pos: "0 < r" using assms(1) by (rule less_le_trans [rotated]) simp
  from ilog2_bounds [OF pos] have lo: "2 powi (ilog2 r) \<le> r" and hi: "r < 2 powi (ilog2 r + 1)"
    by auto
  from assms(1) hi have a: "(2::rat) powi k < 2 powi (ilog2 r + 1)" by simp
  have "k < ilog2 r + 1"
  proof (rule ccontr)
    assume "\<not> k < ilog2 r + 1"
    then have "(2::rat) powi (ilog2 r + 1) \<le> 2 powi k" by (intro power_int_increasing) simp_all
    with a show False by simp
  qed
  moreover from lo assms(2) have b: "(2::rat) powi (ilog2 r) < 2 powi (k + 1)" by simp
  have "ilog2 r < k + 1"
  proof (rule ccontr)
    assume "\<not> ilog2 r < k + 1"
    then have "(2::rat) powi (k + 1) \<le> 2 powi (ilog2 r)" by (intro power_int_increasing) simp_all
    with b show False by simp
  qed
  ultimately show ?thesis by simp
qed

lemma round_half_even_of_int [simp]: "round_half_even (of_int n) = n"
  by (simp add: round_half_even_def)

lemma ulp_exp_eq:
  assumes "2 powi k \<le> \<bar>r\<bar>" and "\<bar>r\<bar> < 2 powi (k + 1)"
  shows "ulp_exp r = max (k - 52) (- 1074)"
  using ilog2_unique [OF assms] by (simp add: ulp_exp_def)

lemma rnd_eval:
  assumes "2 powi k \<le> \<bar>r\<bar>" and "\<bar>r\<bar> < 2 powi (k + 1)"
    and "u = max (k - 52) (- 1074)"
    and "round_half_even (r / 2 powi u) = m"
    and "v = of_int m * 2 powi u"
    and "\<bar>v\<bar> < 2 ^ 1024"
  shows "rnd r = Fin v"
proof -
  have "0 < \<bar>r\<bar>" using assms(1) by (rule less_le_trans [rotated]) simp
  then have nz: "r \<noteq> 0" by simp
  from ulp_exp_eq [OF assms(1,2)] assms(3) have u: "ulp_exp r = u" by simp
  from assms(6) have "\<not> 2 ^ 1024 \<le> v" and "\<not> v \<le> - (2 ^ 1024)" by linarith+
  with nz u assms(4,5) show ?thesis by (simp add: rnd_def Let_def)
qed

lemma rnd_int:
  assumes "\<bar>n\<bar> \<le> 2 ^ 53"
  shows "rnd (of_int n) = Fin (of_int n)"
proof (cases "n = 0")
  case True
  then show ?thesis by (simp add: rnd_def)
next
  case False
  define r :: rat where "r = of_int n"
  define k where "k = ilog2 \<bar>r\<bar>"
  define u where "u = max (k - 52) (- 1074)"
  from False have pos: "0 < \<bar>r\<bar>" and one: "1 \<le> \<bar>r\<bar>" by (simp_all add: r_def flip: of_int_abs)
  from ilog2_bounds [OF pos] have lo: "2 powi k \<le> \<bar>r\<bar>" and hi: "\<bar>r\<bar> < 2 powi (k + 1)"
    by (simp_all add: k_def)
  have le: "\<bar>r\<bar> \<le> 2 ^ 53"
  proof -
    have "\<bar>r\<bar> = of_int \<bar>n\<bar>" by (simp add: r_def)
    also have "\<dots> \<le> of_int (2 ^ 53)" using assms by (simp only: of_int_le_iff)
    finally show ?thesis by simp
  qed
  have k0: "0 \<le> k"
  proof (rule ccontr)
    assume "\<not> 0 \<le> k"
    then have "(2::rat) powi (k + 1) \<le> 2 powi 0" by (intro power_int_increasing) simp_all
    with hi one show False by simp
  qed
  have k53: "k \<le> 53"
  proof (rule ccontr)
    assume "\<not> k \<le> 53"
    then have "(2::rat) powi 54 \<le> 2 powi k" by (intro power_int_increasing) simp_all
    with lo le show False by simp
  qed
  have "\<exists>m. r / 2 powi u = of_int m"
  proof (cases "k = 53")
    case True
    then have u1: "u = 1" by (simp add: u_def)
    from True lo le have "\<bar>r\<bar> = 2 ^ 53" by simp
    then have "r = 2 ^ 53 \<or> r = - (2 ^ 53)" by linarith
    then have "r / 2 powi u = of_int (2 ^ 52) \<or> r / 2 powi u = of_int (- (2 ^ 52))"
      by (auto simp: u1)
    then show ?thesis by blast
  next
    case False
    with k53 k0 have u0: "u \<le> 0" by (simp add: u_def)
    then have "(2::rat) powi u = 1 / 2 ^ nat (- u)"
      by (simp add: power_int_def field_simps)
    then have "r / 2 powi u = of_int (n * 2 ^ nat (- u))" by (simp add: r_def)
    then show ?thesis ..
  qed
  then obtain m where m: "r / 2 powi u = of_int m" ..
  then have rm: "round_half_even (r / 2 powi u) = m" by simp
  have "(2::rat) powi u \<noteq> 0" by simp
  with m have v: "r = of_int m * 2 powi u" by (simp add: field_simps)
  have "\<bar>r\<bar> < 2 ^ 1024"
  proof -
    have "(2::rat) ^ 53 < 2 ^ 1024" by (rule power_strict_increasing) simp_all
    with le show ?thesis by linarith
  qed
  from rnd_eval [OF lo hi u_def rm v this] show ?thesis by (simp add: r_def)
qed

lemma rnd_numeral: "numeral w \<le> (2 ^ 53 :: int) \<Longrightarrow> rnd (numeral w) = Fin (numeral w)"
  using rnd_int [of "numeral w"] by simp

lemma rnd_neg_numeral:
  "numeral w \<le> (2 ^ 53 :: int) \<Longrightarrow> rnd (- numeral w) = Fin (- numeral w)"
  using rnd_int [of "- numeral w"] by simp

lemma rnd_0: "rnd 0 = Fin 0"
  by (simp add: rnd_def)

lemma rnd_1: "rnd 1 = Fin 1"
  using rnd_int [of 1] by simp

lemmas rnd_exact = rnd_0 rnd_1 rnd_numeral rnd_neg_numeral

lemma rnd_nonneg:
  assumes "0 \<le> r"
  shows "rnd r = PosInf \<or> (\<exists>v\<ge>0. rnd r = Fin v)"
proof (cases "r = 0")
  case True
  then show ?thesis by (simp add: rnd_def)
next
  case False
  have p: "0 < (2::rat) powi ulp_exp r" by simp
  with assms have "0 \<le> r / 2 powi ulp_exp r" by simp
  then have "0 \<le> round_half_even (r / 2 powi ulp_exp r)"
    by (auto simp: round_half_even_def Let_def)
  then have "0 \<le> (of_int (round_half_even (r / 2 powi ulp_exp r)) :: rat) * 2 powi ulp_exp r"
    using p by simp
  then show ?thesis using False by (auto simp: rnd_def Let_def)
qed

lemma round_half_even_near:
  assumes "\<bar>x - of_int m\<bar> < 1 / 2"
  shows "round_half_even x = m"
proof (cases "of_int m \<le> x")
  case True
  with assms have "\<lfloor>x\<rfloor> = m" by (intro floor_unique) linarith+
  with assms True show ?thesis by (simp add: round_half_even_def Let_def)
next
  case False
  have "(of_int (m - 1) :: rat) = of_int m - 1" by simp
  with assms False have "of_int (m - 1) \<le> x" and "x < of_int (m - 1) + 1" by linarith+
  then have f: "\<lfloor>x\<rfloor> = m - 1" by (rule floor_unique)
  from assms False have "1 / 2 < x - of_int (m - 1)" by simp
  with f show ?thesis by (simp add: round_half_even_def Let_def)
qed

lemma round_half_even_tie_down:
  assumes "x = of_int m + 1 / 2" and "even m"
  shows "round_half_even x = m"
proof -
  from assms(1) have "\<lfloor>x\<rfloor> = m" by (intro floor_unique) simp_all
  with assms show ?thesis by (simp add: round_half_even_def Let_def)
qed

lemma round_half_even_tie_up:
  assumes "x = of_int m - 1 / 2" and "even m"
  shows "round_half_even x = m"
proof -
  from assms(1) have f: "\<lfloor>x\<rfloor> = m - 1" by (intro floor_unique) simp_all
  with assms show ?thesis by (simp add: round_half_even_def Let_def)
qed

lemma rnd_integer:
  assumes "of_int \<lfloor>r\<rfloor> = r" and "\<bar>r\<bar> \<le> 2 ^ 53"
  shows "rnd r = Fin r"
proof -
  have "(of_int \<bar>\<lfloor>r\<rfloor>\<bar> :: rat) = \<bar>of_int \<lfloor>r\<rfloor>\<bar>" by (rule of_int_abs)
  also have "\<dots> = \<bar>r\<bar>" by (simp only: assms(1))
  finally have "(of_int \<bar>\<lfloor>r\<rfloor>\<bar> :: rat) = \<bar>r\<bar>" .
  with assms(2) have "(of_int \<bar>\<lfloor>r\<rfloor>\<bar> :: rat) \<le> of_int (2 ^ 53)" by simp
  then have "\<bar>\<lfloor>r\<rfloor>\<bar> \<le> 2 ^ 53" by (simp only: of_int_le_iff)
  from rnd_int [OF this] show ?thesis by (simp only: assms(1))
qed

lemma round_half_even_close: "\<bar>of_int (round_half_even x) - x\<bar> \<le> 1 / 2"
proof -
  have "of_int \<lfloor>x\<rfloor> \<le> x" and "x < of_int \<lfloor>x\<rfloor> + 1" by linarith+
  then show ?thesis by (auto simp: round_half_even_def Let_def)
qed

lemma rnd_close:
  assumes "rnd r = Fin v"
  shows "\<bar>v - r\<bar> \<le> 2 powi (ulp_exp r) / 2"
proof (cases "r = 0")
  case True
  with assms show ?thesis by (simp add: rnd_def)
next
  case False
  define P :: rat where "P = 2 powi (ulp_exp r)"
  define m where "m = round_half_even (r / P)"
  have P: "0 < P" by (simp add: P_def)
  from assms False have v: "v = of_int m * P"
    by (simp add: rnd_def Let_def P_def m_def split: if_splits)
  have "\<bar>of_int m - r / P\<bar> \<le> 1 / 2" unfolding m_def by (rule round_half_even_close)
  then have "\<bar>of_int m - r / P\<bar> * P \<le> 1 / 2 * P" using P by (intro mult_right_mono) simp_all
  moreover have "\<bar>of_int m - r / P\<bar> * P = \<bar>of_int m * P - r\<bar>"
  proof -
    have "\<bar>of_int m - r / P\<bar> * P = \<bar>(of_int m - r / P) * P\<bar>" using P by (simp add: abs_mult)
    also have "(of_int m - r / P) * P = of_int m * P - r" using P by (simp add: field_simps)
    finally show ?thesis .
  qed
  ultimately have "\<bar>of_int m * P - r\<bar> \<le> 1 / 2 * P" by (simp only:)
  then have "\<bar>v - r\<bar> \<le> P / 2" by (simp add: v)
  then show ?thesis by (simp only: P_def)
qed

lemma rnd_2p53_plus_1: "rnd 9007199254740993 = Fin 9007199254740992"
proof (rule rnd_eval [where k = 53 and u = 1 and m = "4503599627370496"])
  show "round_half_even (9007199254740993 / 2 powi 1) = 4503599627370496"
    by (rule round_half_even_tie_down) simp_all
qed simp_all

lemma rnd_2p53_plus_2: "rnd 9007199254740994 = Fin 9007199254740994"
proof (rule rnd_eval [where k = 53 and u = 1 and m = "4503599627370497"])
  show "round_half_even (9007199254740994 / 2 powi 1) = 4503599627370497"
    by (rule round_half_even_near) simp
qed simp_all

section \<open>Product stock\<close>

lemma num_sub_Fin: "num_sub (Fin x) (Fin y) = rnd (x - y)"
  by (simp add: num_sub_def)

lemma not_negative_rnd: "0 \<le> r \<Longrightarrow> \<not> num_less (rnd r) (Fin 0)"
  using rnd_nonneg [of r] by auto

text \<open>
  C5, as the code has it. For a product whose stock is a non-negative integer and a
  non-negative integer quantity not above the stock, \<open>decreaseStock\<close> returns normally
  and never leaves a negative stock. The stock it leaves is \<open>stock - quantity\<close> whenever
  the stock is at most \<open>2^53\<close>; above that the difference is rounded to a double.
\<close>

theorem decreaseStock_within_stock:
  assumes "stock p = Fin (of_int s)" and "q = Fin (of_int k)" and "0 \<le> k" and "k \<le> s"
  shows "fst (decreaseStock p q) = None
         \<and> \<not> num_less (stock (snd (decreaseStock p q))) (Fin 0)
         \<and> (s \<le> 2 ^ 53 \<longrightarrow>
               decreaseStock p q = (None, p\<lparr>stock := Fin (of_int (s - k))\<rparr>) \<and> 0 \<le> s - k)"
proof -
  from assms have ok: "\<not> num_greater q (stock p)" by (simp add: num_greater_def)
  then have res: "decreaseStock p q = (None, p\<lparr>stock := rnd (of_int (s - k))\<rparr>)"
    using assms(1,2) by (simp add: decreaseStock_def num_sub_Fin)
  from assms(3,4) have "(0::rat) \<le> of_int (s - k)" by simp
  then have nn: "\<not> num_less (rnd (of_int (s - k))) (Fin 0)" by (rule not_negative_rnd)
  have "rnd (of_int (s - k)) = Fin (of_int (s - k))" if "s \<le> 2 ^ 53"
    using that assms(3,4) by (intro rnd_int) simp
  with res nn assms(3,4) show ?thesis by simp
qed

theorem decreaseStock_within_stock_witness:
  "stock \<lparr>product_id = ''p1'', product_name = ''Mate'', product_price = Fin 10, stock = Fin 5\<rparr>
     = Fin (of_int 5)
   \<and> Fin 3 = Fin (of_int 3) \<and> (0::int) \<le> 3 \<and> (3::int) \<le> 5 \<and> (5::int) \<le> 2 ^ 53
   \<and> decreaseStock \<lparr>product_id = ''p1'', product_name = ''Mate'', product_price = Fin 10, stock = Fin 5\<rparr>
        (Fin 3)
       = (None, \<lparr>product_id = ''p1'', product_name = ''Mate'', product_price = Fin 10, stock = Fin 2\<rparr>)"
proof -
  let ?p = "\<lparr>product_id = ''p1'', product_name = ''Mate'', product_price = Fin 10, stock = Fin 5\<rparr>"
  have a: "stock ?p = Fin (of_int 5)" and b: "Fin 3 = Fin (of_int 3)" by simp_all
  have c: "(0::int) \<le> 3" and d: "(3::int) \<le> 5" and e: "(5::int) \<le> 2 ^ 53" by simp_all
  from decreaseStock_within_stock [OF a b c d] e
  have "decreaseStock ?p (Fin 3) = (None, ?p\<lparr>stock := Fin (of_int (5 - 3))\<rparr>)" by blast
  then have "decreaseStock ?p (Fin 3)
      = (None, \<lparr>product_id = ''p1'', product_name = ''Mate'', product_price = Fin 10, stock = Fin 2\<rparr>)"
    by simp
  with a b c d e show ?thesis by blast
qed

text \<open>
  The claim as first stated covers every non-negative integer stock. At stock
  \<open>2^53 + 2\<close>, a double, and quantity 1 the call succeeds but leaves \<open>2^53\<close>, not
  \<open>2^53 + 1\<close>, which is not a double.
\<close>

theorem decreaseStock_rounds_counterexample:
  "is_double (Fin 9007199254740994) \<and> is_double (Fin 1)
   \<and> decreaseStock
        \<lparr>product_id = ''p1'', product_name = ''Mate'', product_price = Fin 10,
         stock = Fin 9007199254740994\<rparr> (Fin 1)
       = (None, \<lparr>product_id = ''p1'', product_name = ''Mate'', product_price = Fin 10,
                 stock = Fin 9007199254740992\<rparr>)
   \<and> Fin 9007199254740992 \<noteq> Fin (9007199254740994 - 1)"
  by (simp add: is_double_def decreaseStock_def num_greater_def num_sub_Fin
      rnd_2p53_plus_1 rnd_2p53_plus_2 rnd_exact)

text \<open>
  C6. When the quantity is above the stock, \<open>decreaseStock\<close> throws
  "Stock insuficiente" and the product, its stock included, is as it was.
\<close>

theorem decreaseStock_above_stock:
  assumes "num_greater q (stock p)"
  shows "decreaseStock p q = (Some StockInsuficiente, p)
         \<and> stock (snd (decreaseStock p q)) = stock p"
  using assms by (simp add: decreaseStock_def)

theorem decreaseStock_above_stock_witness:
  "num_greater (Fin 6)
     (stock \<lparr>product_id = ''p1'', product_name = ''Mate'', product_price = Fin 10, stock = Fin 5\<rparr>)
   \<and> decreaseStock \<lparr>product_id = ''p1'', product_name = ''Mate'', product_price = Fin 10, stock = Fin 5\<rparr>
        (Fin 6)
       = (Some StockInsuficiente,
          \<lparr>product_id = ''p1'', product_name = ''Mate'', product_price = Fin 10, stock = Fin 5\<rparr>)"
proof -
  let ?p = "\<lparr>product_id = ''p1'', product_name = ''Mate'', product_price = Fin 10, stock = Fin 5\<rparr>"
  have more: "num_greater (Fin 6) (stock ?p)" by (simp add: num_greater_def)
  from decreaseStock_above_stock [OF more] more show ?thesis by simp
qed

text \<open>
  C9, as the code has it. \<open>increaseStock\<close> never throws and applies no check to the
  quantity or to the result: it leaves the stock at the double sum of the old stock and the
  quantity, and no bound is enforced (a finite stock can be taken past any bound). For an
  integer stock and an integer quantity whose sum is within \<open>2^53\<close> in magnitude, the
  stock left is exactly the old stock plus the quantity, and it is higher than the old stock
  exactly when the quantity is positive.
\<close>

theorem increaseStock_adds:
  "fst (increaseStock p q) = None
   \<and> snd (increaseStock p q) = p\<lparr>stock := num_add (stock p) q\<rparr>
   \<and> (\<forall>s k. stock p = Fin (of_int s) \<and> q = Fin (of_int k) \<and> \<bar>s + k\<bar> \<le> 2 ^ 53 \<longrightarrow>
          stock (snd (increaseStock p q)) = Fin (of_int (s + k))
          \<and> (num_less (stock p) (stock (snd (increaseStock p q))) \<longleftrightarrow> 0 < k))
   \<and> (is_finite (stock p) \<longrightarrow>
          (\<forall>bound. \<exists>q'. num_less (Fin bound) (stock (snd (increaseStock p q')))))"
proof -
  have exact: "stock (snd (increaseStock p q)) = Fin (of_int (s + k))
      \<and> (num_less (stock p) (stock (snd (increaseStock p q))) \<longleftrightarrow> 0 < k)"
    if "stock p = Fin (of_int s) \<and> q = Fin (of_int k) \<and> \<bar>s + k\<bar> \<le> 2 ^ 53" for s k
  proof -
    from that have "rnd (of_int (s + k)) = Fin (of_int (s + k))" by (intro rnd_int) simp
    then have "num_add (stock p) q = Fin (of_int (s + k))" using that by simp
    then show ?thesis using that by (simp add: increaseStock_def)
  qed
  have unbounded: "\<exists>q'. num_less (Fin bound) (stock (snd (increaseStock p q')))"
    if "is_finite (stock p)" for bound
  proof -
    from that obtain x where "stock p = Fin x" by (cases "stock p") simp_all
    then have "num_less (Fin bound) (stock (snd (increaseStock p PosInf)))"
      by (simp add: increaseStock_def)
    then show ?thesis ..
  qed
  from exact unbounded show ?thesis by (simp add: increaseStock_def)
qed

theorem increaseStock_adds_witness:
  "stock \<lparr>product_id = ''p1'', product_name = ''Mate'', product_price = Fin 10, stock = Fin 5\<rparr>
     = Fin (of_int 5)
   \<and> Fin 3 = Fin (of_int 3) \<and> \<bar>5 + 3 :: int\<bar> \<le> 2 ^ 53
   \<and> stock (snd (increaseStock
        \<lparr>product_id = ''p1'', product_name = ''Mate'', product_price = Fin 10, stock = Fin 5\<rparr> (Fin 3)))
       = Fin 8
   \<and> is_finite (stock \<lparr>product_id = ''p1'', product_name = ''Mate'', product_price = Fin 10, stock = Fin 5\<rparr>)
   \<and> (\<exists>q'. num_less (Fin 1000000) (stock (snd (increaseStock
        \<lparr>product_id = ''p1'', product_name = ''Mate'', product_price = Fin 10, stock = Fin 5\<rparr> q'))))"
proof -
  let ?p = "\<lparr>product_id = ''p1'', product_name = ''Mate'', product_price = Fin 10, stock = Fin 5\<rparr>"
  have a: "stock ?p = Fin (of_int 5)" and b: "Fin 3 = Fin (of_int 3)" by simp_all
  have c: "\<bar>5 + 3 :: int\<bar> \<le> 2 ^ 53" by simp
  have d: "is_finite (stock ?p)" by simp
  from increaseStock_adds [of ?p "Fin 3"] a b c
  have "stock (snd (increaseStock ?p (Fin 3))) = Fin (of_int (5 + 3))" by blast
  then have e: "stock (snd (increaseStock ?p (Fin 3))) = Fin 8" by simp
  from increaseStock_adds [of ?p "Fin 3"] d
  have f: "\<exists>q'. num_less (Fin 1000000) (stock (snd (increaseStock ?p q')))" by blast
  from a b c e d f show ?thesis by blast
qed

text \<open>
  The claim as first stated says the stock goes up, to the old stock plus the quantity,
  for every quantity. A negative quantity lowers it (5 and -7 leave -2), and at stock
  \<open>2^53\<close> adding 1 leaves \<open>2^53\<close>: the stock is neither higher nor the exact sum.
\<close>

theorem increaseStock_counterexample:
  "stock (snd (increaseStock
      \<lparr>product_id = ''p1'', product_name = ''Mate'', product_price = Fin 10, stock = Fin 5\<rparr>
      (Fin (- 7)))) = Fin (- 2)
   \<and> num_less (Fin (- 2)) (Fin 5)
   \<and> is_double (Fin 9007199254740992) \<and> is_double (Fin 1)
   \<and> stock (snd (increaseStock
      \<lparr>product_id = ''p1'', product_name = ''Mate'', product_price = Fin 10,
       stock = Fin 9007199254740992\<rparr> (Fin 1))) = Fin 9007199254740992
   \<and> Fin 9007199254740992 \<noteq> Fin (9007199254740992 + 1)"
  by (simp add: is_double_def increaseStock_def rnd_2p53_plus_1 rnd_exact)

section \<open>Order status\<close>

lemma all_statuses_reachable:
  "status (new_Order i c) = Pending
   \<and> status (snd (process (new_Order i c))) = Processing
   \<and> status (snd (complete (snd (process (new_Order i c))))) = Completed
   \<and> status (snd (cancel (new_Order i c))) = Cancelled"
  by (simp add: new_Order_def new_Order_with_def process_def complete_def cancel_def)

text \<open>
  C1, as the code has it. \<open>process\<close> returns normally exactly on a pending order and
  \<open>complete\<close> exactly on a processing one; \<open>cancel\<close> throws exactly on a completed
  order. A call that throws leaves the order as it was. So the status only ever changes
  along the allowed transitions, and each of them is taken by some call. The one
  successful call that is not among them is \<open>cancel\<close> on a cancelled order, which returns
  normally and leaves the order cancelled.
\<close>

theorem status_transitions:
  "(fst (process ord) = None \<longleftrightarrow> status ord = Pending)
   \<and> (fst (complete ord) = None \<longleftrightarrow> status ord = Processing)
   \<and> (fst (cancel ord) = None \<longleftrightarrow> status ord \<noteq> Completed)
   \<and> (\<forall>c. fst (status_call ord c) \<noteq> None \<longrightarrow> snd (status_call ord c) = ord)
   \<and> (\<forall>c. status (snd (status_call ord c)) \<noteq> status ord \<longrightarrow>
          fst (status_call ord c) = None
          \<and> (status ord, status (snd (status_call ord c))) \<in> allowed_transitions)
   \<and> (\<forall>s'. (status ord, s') \<in> allowed_transitions \<longrightarrow>
          (\<exists>c. status_call ord c = (None, ord\<lparr>status := s'\<rparr>)))
   \<and> (status ord = Cancelled \<longrightarrow> cancel ord = (None, ord))"
proof -
  have fails: "fst (status_call ord c) \<noteq> None \<longrightarrow> snd (status_call ord c) = ord" for c
    by (cases c) (simp_all add: process_def complete_def cancel_def)
  have changes: "status (snd (status_call ord c)) \<noteq> status ord \<longrightarrow>
        fst (status_call ord c) = None
        \<and> (status ord, status (snd (status_call ord c))) \<in> allowed_transitions" for c
    by (cases c; cases "status ord")
       (simp_all add: process_def complete_def cancel_def allowed_transitions_def)
  have taken: "(status ord, s') \<in> allowed_transitions \<longrightarrow>
        (\<exists>c. status_call ord c = (None, ord\<lparr>status := s'\<rparr>))" for s'
  proof
    assume "(status ord, s') \<in> allowed_transitions"
    then consider "status ord = Pending" "s' = Processing"
      | "status ord = Processing" "s' = Completed"
      | "status ord = Pending" "s' = Cancelled"
      | "status ord = Processing" "s' = Cancelled"
      by (auto simp: allowed_transitions_def)
    then show "\<exists>c. status_call ord c = (None, ord\<lparr>status := s'\<rparr>)"
    proof cases
      case 1
      then have "status_call ord Process = (None, ord\<lparr>status := s'\<rparr>)"
        by (simp add: process_def)
      then show ?thesis ..
    next
      case 2
      then have "status_call ord Complete = (None, ord\<lparr>status := s'\<rparr>)"
        by (simp add: complete_def)
      then show ?thesis ..
    next
      case 3
      then have "status_call ord Cancel = (None, ord\<lparr>status := s'\<rparr>)"
        by (simp add: cancel_def)
      then show ?thesis ..
    next
      case 4
      then have "status_call ord Cancel = (None, ord\<lparr>status := s'\<rparr>)"
        by (simp add: cancel_def)
      then show ?thesis ..
    qed
  qed
  have again: "status ord = Cancelled \<longrightarrow> cancel ord = (None, ord)"
    by (simp add: cancel_def)
  have "fst (process ord) = None \<longleftrightarrow> status ord = Pending"
    and "fst (complete ord) = None \<longleftrightarrow> status ord = Processing"
    and "fst (cancel ord) = None \<longleftrightarrow> status ord \<noteq> Completed"
    by (simp_all add: process_def complete_def cancel_def)
  with fails changes taken again show ?thesis by blast
qed

theorem status_transitions_witness:
  "fst (status_call (new_Order_with ''o1'' ''c1'' Completed) Cancel) \<noteq> None
   \<and> snd (status_call (new_Order_with ''o1'' ''c1'' Completed) Cancel)
       = new_Order_with ''o1'' ''c1'' Completed
   \<and> status (snd (status_call (new_Order ''o1'' ''c1'') Process)) \<noteq> status (new_Order ''o1'' ''c1'')
   \<and> (Pending, Processing) \<in> allowed_transitions
   \<and> (\<exists>c. status_call (new_Order ''o1'' ''c1'') c
            = (None, (new_Order ''o1'' ''c1'')\<lparr>status := Processing\<rparr>))
   \<and> status (new_Order_with ''o2'' ''c1'' Cancelled) = Cancelled
   \<and> cancel (new_Order_with ''o2'' ''c1'' Cancelled) = (None, new_Order_with ''o2'' ''c1'' Cancelled)"
proof -
  have a: "fst (status_call (new_Order_with ''o1'' ''c1'' Completed) Cancel) \<noteq> None"
    by (simp add: new_Order_with_def cancel_def)
  have b: "status (snd (status_call (new_Order ''o1'' ''c1'') Process)) \<noteq> status (new_Order ''o1'' ''c1'')"
    by (simp add: new_Order_def new_Order_with_def process_def)
  have c: "status (snd (status_call (new_Order ''o1'' ''c1'') Process)) = Processing"
    by (simp add: new_Order_def new_Order_with_def process_def)
  have d: "status (new_Order ''o1'' ''c1'') = Pending"
    by (simp add: new_Order_def new_Order_with_def)
  have e: "status (new_Order_with ''o2'' ''c1'' Cancelled) = Cancelled"
    by (simp add: new_Order_with_def)
  from status_transitions [of "new_Order_with ''o1'' ''c1'' Completed"] a
  have 1: "snd (status_call (new_Order_with ''o1'' ''c1'' Completed) Cancel)
             = new_Order_with ''o1'' ''c1'' Completed"
    by blast
  from status_transitions [of "new_Order ''o1'' ''c1''"] b
  have "(status (new_Order ''o1'' ''c1''), status (snd (status_call (new_Order ''o1'' ''c1'') Process)))
          \<in> allowed_transitions"
    by blast
  with c d have 2: "(Pending, Processing) \<in> allowed_transitions" by simp
  from status_transitions [of "new_Order ''o1'' ''c1''"] 2 d
  have 3: "\<exists>c. status_call (new_Order ''o1'' ''c1'') c
            = (None, (new_Order ''o1'' ''c1'')\<lparr>status := Processing\<rparr>)"
    by metis
  from status_transitions [of "new_Order_with ''o2'' ''c1'' Cancelled"] e
  have 4: "cancel (new_Order_with ''o2'' ''c1'' Cancelled) = (None, new_Order_with ''o2'' ''c1'' Cancelled)"
    by blast
  from a 1 b 2 3 e 4 show ?thesis by blast
qed

text \<open>
  The claim as first stated asks \<open>cancel\<close> to fail on a cancelled order too. It does
  not: an order cancelled once can be cancelled again without an exception.
\<close>

theorem cancel_cancelled_counterexample:
  "status (snd (cancel (new_Order ''o1'' ''c1''))) = Cancelled
   \<and> fst (cancel (snd (cancel (new_Order ''o1'' ''c1'')))) = None"
  by (simp add: new_Order_def new_Order_with_def cancel_def)

section \<open>Order items and total\<close>

lemma recalculateTotal_consistent: "total_consistent (recalculateTotal ord)"
  by (simp add: total_consistent_def recalculateTotal_def)

lemma recalculateTotal_idle: "total_consistent ord \<Longrightarrow> recalculateTotal ord = ord"
  by (simp add: total_consistent_def recalculateTotal_def)

lemma new_Order_consistent: "total_consistent (new_Order_with i c s)"
  by (simp add: total_consistent_def new_Order_with_def reduce_total_def)

lemma call_consistent: "total_consistent (call ord c)"
  by (cases c) (simp_all add: addItem_def removeItem_def recalculateTotal_consistent)

lemma calls_snoc: "calls ord (cs @ [c]) = call (calls ord cs) c"
  by (simp add: calls_def)

lemma calls_consistent: "cs \<noteq> [] \<Longrightarrow> total_consistent (calls ord cs)"
proof (cases cs rule: rev_cases)
  case Nil
  assume "cs \<noteq> []"
  with Nil show ?thesis by simp
next
  case (snoc cs' c)
  then show ?thesis by (simp add: calls_snoc call_consistent)
qed

text \<open>Integers stay integers under sum and product, so the fold is exact while it stays
  within \<open>2^53\<close>.\<close>

lemma integral_add:
  assumes "of_int \<lfloor>x\<rfloor> = (x::rat)" and "of_int \<lfloor>y\<rfloor> = y"
  shows "of_int \<lfloor>x + y\<rfloor> = x + y"
proof -
  have "x + y = of_int \<lfloor>x\<rfloor> + of_int \<lfloor>y\<rfloor>" by (simp only: assms)
  also have "\<dots> = of_int (\<lfloor>x\<rfloor> + \<lfloor>y\<rfloor>)" by simp
  finally have "x + y = of_int (\<lfloor>x\<rfloor> + \<lfloor>y\<rfloor>)" .
  then have "of_int \<lfloor>x + y\<rfloor> = (of_int (\<lfloor>x\<rfloor> + \<lfloor>y\<rfloor>) :: rat)" by (simp only: floor_of_int)
  also have "\<dots> = x + y" by (simp only: of_int_add assms)
  finally show ?thesis .
qed

lemma integral_mult:
  assumes "of_int \<lfloor>x\<rfloor> = (x::rat)" and "of_int \<lfloor>y\<rfloor> = y"
  shows "of_int \<lfloor>x * y\<rfloor> = x * y"
proof -
  have "x * y = of_int \<lfloor>x\<rfloor> * of_int \<lfloor>y\<rfloor>" by (simp only: assms)
  also have "\<dots> = of_int (\<lfloor>x\<rfloor> * \<lfloor>y\<rfloor>)" by simp
  finally have "x * y = of_int (\<lfloor>x\<rfloor> * \<lfloor>y\<rfloor>)" .
  then have "of_int \<lfloor>x * y\<rfloor> = (of_int (\<lfloor>x\<rfloor> * \<lfloor>y\<rfloor>) :: rat)" by (simp only: floor_of_int)
  also have "\<dots> = x * y" by (simp only: of_int_mult assms)
  finally show ?thesis .
qed

lemma items_abs_sum_nonneg: "0 \<le> items_abs_sum xs"
  by (induction xs) (simp_all add: items_abs_sum_def)

lemma foldl_exact:
  assumes "integer_items xs" and "of_int \<lfloor>t\<rfloor> = t" and "\<bar>t\<bar> + items_abs_sum xs \<le> 2 ^ 53"
  shows "foldl (\<lambda>total item. num_add total (num_mul (quantity item) (price item))) (Fin t) xs
           = Fin (t + items_sum xs)"
  using assms
proof (induction xs arbitrary: t)
  case Nil
  then show ?case by (simp add: items_sum_def)
next
  case (Cons item rest)
  define q where "q = value_of (quantity item)"
  define p where "p = value_of (price item)"
  from Cons.prems(1) have fq: "quantity item = Fin q" and fp: "price item = Fin p"
    and iq: "of_int \<lfloor>q\<rfloor> = q" and ip: "of_int \<lfloor>p\<rfloor> = p" and rest: "integer_items rest"
    by (cases "quantity item"; cases "price item";
        simp add: integer_items_def is_integer_def q_def p_def)+
  have split: "items_abs_sum (item # rest) = \<bar>q * p\<bar> + items_abs_sum rest"
    by (simp add: items_abs_sum_def q_def p_def)
  have nn: "0 \<le> items_abs_sum rest" by (rule items_abs_sum_nonneg)
  from Cons.prems(3) split nn have qp: "\<bar>q * p\<bar> \<le> 2 ^ 53" and tqp: "\<bar>t + q * p\<bar> \<le> 2 ^ 53"
    and next_ok: "\<bar>t + q * p\<bar> + items_abs_sum rest \<le> 2 ^ 53"
    by linarith+
  have iqp: "of_int \<lfloor>q * p\<rfloor> = q * p" using iq ip by (rule integral_mult)
  have it: "of_int \<lfloor>t + q * p\<rfloor> = t + q * p" using Cons.prems(2) iqp by (rule integral_add)
  have "num_mul (quantity item) (price item) = Fin (q * p)"
    using rnd_integer [OF iqp qp] by (simp add: fq fp)
  then have step: "num_add (Fin t) (num_mul (quantity item) (price item)) = Fin (t + q * p)"
    using rnd_integer [OF it tqp] by simp
  have "foldl (\<lambda>total item. num_add total (num_mul (quantity item) (price item))) (Fin t) (item # rest)
      = foldl (\<lambda>total item. num_add total (num_mul (quantity item) (price item))) (Fin (t + q * p)) rest"
    by (simp add: step)
  also have "\<dots> = Fin (t + q * p + items_sum rest)"
    using rest it next_ok by (rule Cons.IH)
  also have "t + q * p + items_sum rest = t + items_sum (item # rest)"
    by (simp add: items_sum_def q_def p_def)
  finally show ?case .
qed

lemma reduce_total_exact:
  assumes "integer_items xs" and "items_abs_sum xs \<le> 2 ^ 53"
  shows "reduce_total xs = Fin (items_sum xs)"
  using foldl_exact [of xs 0] assms by (simp add: reduce_total_def)

text \<open>The double nearest to 0.1, and three times it.\<close>

lemma rnd_tenth:
  "rnd (3602879701896397 / 36028797018963968) = Fin (3602879701896397 / 36028797018963968)"
proof (rule rnd_eval [where k = "- 4" and u = "- 56" and m = "7205759403792794"])
  show "round_half_even (3602879701896397 / 36028797018963968 / 2 powi - 56) = 7205759403792794"
    by (rule round_half_even_near) simp
qed simp_all

lemma rnd_three_tenths:
  "rnd (10808639105689191 / 36028797018963968) = Fin (1351079888211149 / 4503599627370496)"
proof (rule rnd_eval [where k = "- 2" and u = "- 54" and m = "5404319552844596"])
  show "round_half_even (10808639105689191 / 36028797018963968 / 2 powi - 54) = 5404319552844596"
    by (rule round_half_even_tie_up) simp_all
qed simp_all

lemma rnd_three_tenths_again:
  "rnd (1351079888211149 / 4503599627370496) = Fin (1351079888211149 / 4503599627370496)"
proof (rule rnd_eval [where k = "- 2" and u = "- 54" and m = "5404319552844596"])
  show "round_half_even (1351079888211149 / 4503599627370496 / 2 powi - 54) = 5404319552844596"
    by (rule round_half_even_near) simp
qed simp_all

text \<open>
  C4, as the code has it. Take any order and any sequence of \<open>addItem\<close> and
  \<open>removeItem\<close> calls. After each call of the sequence (after its first \<open>k\<close> calls, for
  every \<open>k\<close> from 1 to its length) \<open>totalAmount\<close> is the result of the code's \<open>reduce\<close>
  over the items the order then holds: the products \<open>quantity * price\<close>, with the price
  stored in the item, added from left to right in double arithmetic. This is the exact sum
  of \<open>quantity * price\<close> whenever the quantities and prices are integers and the
  magnitudes of the products add up to at most \<open>2^53\<close>.
\<close>

theorem total_after_each_call:
  "\<forall>k. 0 < k \<and> k \<le> length cs \<longrightarrow>
     totalAmount (calls ord (take k cs)) = reduce_total (items (calls ord (take k cs)))
     \<and> (integer_items (items (calls ord (take k cs)))
          \<and> items_abs_sum (items (calls ord (take k cs))) \<le> 2 ^ 53 \<longrightarrow>
        totalAmount (calls ord (take k cs)) = Fin (items_sum (items (calls ord (take k cs)))))"
proof (intro allI impI)
  fix k
  assume "0 < k \<and> k \<le> length cs"
  then have "take k cs \<noteq> []" by auto
  then have "total_consistent (calls ord (take k cs))" by (rule calls_consistent)
  then have eq: "totalAmount (calls ord (take k cs)) = reduce_total (items (calls ord (take k cs)))"
    by (simp add: total_consistent_def)
  have "totalAmount (calls ord (take k cs)) = Fin (items_sum (items (calls ord (take k cs))))"
    if "integer_items (items (calls ord (take k cs)))
          \<and> items_abs_sum (items (calls ord (take k cs))) \<le> 2 ^ 53"
    using that eq by (simp add: reduce_total_exact)
  with eq show "totalAmount (calls ord (take k cs)) = reduce_total (items (calls ord (take k cs)))
     \<and> (integer_items (items (calls ord (take k cs)))
          \<and> items_abs_sum (items (calls ord (take k cs))) \<le> 2 ^ 53 \<longrightarrow>
        totalAmount (calls ord (take k cs)) = Fin (items_sum (items (calls ord (take k cs)))))"
    by blast
qed

theorem total_after_each_call_witness:
  "(0::nat) < 2 \<and> (2::nat) \<le> length [AddItem \<lparr>productId = ''p1'', quantity = Fin 2, price = Fin 10\<rparr>,
                                        AddItem \<lparr>productId = ''p2'', quantity = Fin 1, price = Fin 5\<rparr>,
                                        RemoveItem ''p1'']
   \<and> integer_items [\<lparr>productId = ''p1'', quantity = Fin 2, price = Fin 10\<rparr>,
                    \<lparr>productId = ''p2'', quantity = Fin 1, price = Fin 5\<rparr>]
   \<and> items_abs_sum [\<lparr>productId = ''p1'', quantity = Fin 2, price = Fin 10\<rparr>,
                     \<lparr>productId = ''p2'', quantity = Fin 1, price = Fin 5\<rparr>] \<le> 2 ^ 53
   \<and> totalAmount (calls (new_Order ''o1'' ''c1'')
        (take 2 [AddItem \<lparr>productId = ''p1'', quantity = Fin 2, price = Fin 10\<rparr>,
                 AddItem \<lparr>productId = ''p2'', quantity = Fin 1, price = Fin 5\<rparr>,
                 RemoveItem ''p1''])) = Fin 25
   \<and> (0::nat) < 3 \<and> (3::nat) \<le> length [AddItem \<lparr>productId = ''p1'', quantity = Fin 2, price = Fin 10\<rparr>,
                                        AddItem \<lparr>productId = ''p2'', quantity = Fin 1, price = Fin 5\<rparr>,
                                        RemoveItem ''p1'']
   \<and> integer_items [\<lparr>productId = ''p2'', quantity = Fin 1, price = Fin 5\<rparr>]
   \<and> items_abs_sum [\<lparr>productId = ''p2'', quantity = Fin 1, price = Fin 5\<rparr>] \<le> 2 ^ 53
   \<and> totalAmount (calls (new_Order ''o1'' ''c1'')
        (take 3 [AddItem \<lparr>productId = ''p1'', quantity = Fin 2, price = Fin 10\<rparr>,
                 AddItem \<lparr>productId = ''p2'', quantity = Fin 1, price = Fin 5\<rparr>,
                 RemoveItem ''p1''])) = Fin 5"
proof -
  let ?i1 = "\<lparr>productId = ''p1'', quantity = Fin 2, price = Fin 10\<rparr>"
  let ?i2 = "\<lparr>productId = ''p2'', quantity = Fin 1, price = Fin 5\<rparr>"
  let ?cs = "[AddItem ?i1, AddItem ?i2, RemoveItem ''p1'']"
  let ?ord = "new_Order ''o1'' ''c1''"
  have two: "(0::nat) < 2 \<and> (2::nat) \<le> length ?cs" by simp
  have three: "(0::nat) < 3 \<and> (3::nat) \<le> length ?cs" by simp
  have items2: "items (calls ?ord (take 2 ?cs)) = [?i1, ?i2]"
    by (simp add: calls_def addItem_def recalculateTotal_def new_Order_def new_Order_with_def
        numeral_2_eq_2)
  have items3: "items (calls ?ord (take 3 ?cs)) = [?i2]"
    by (simp add: calls_def addItem_def removeItem_def recalculateTotal_def new_Order_def
        new_Order_with_def)
  have int2: "integer_items [?i1, ?i2]" and int3: "integer_items [?i2]"
    by (simp_all add: integer_items_def is_integer_def)
  have abs2: "items_abs_sum [?i1, ?i2] \<le> 2 ^ 53" and abs3: "items_abs_sum [?i2] \<le> 2 ^ 53"
    by (simp_all add: items_abs_sum_def)
  from int2 abs2 have ok2: "integer_items (items (calls ?ord (take 2 ?cs)))
      \<and> items_abs_sum (items (calls ?ord (take 2 ?cs))) \<le> 2 ^ 53"
    unfolding items2 by (rule conjI)
  from total_after_each_call [of ?cs ?ord, THEN spec, of 2, THEN mp, OF two]
  have "integer_items (items (calls ?ord (take 2 ?cs)))
      \<and> items_abs_sum (items (calls ?ord (take 2 ?cs))) \<le> 2 ^ 53 \<longrightarrow>
    totalAmount (calls ?ord (take 2 ?cs)) = Fin (items_sum (items (calls ?ord (take 2 ?cs))))"
    by (rule conjunct2)
  from this ok2
  have "totalAmount (calls ?ord (take 2 ?cs)) = Fin (items_sum (items (calls ?ord (take 2 ?cs))))"
    by (rule mp)
  also have "\<dots> = Fin 25" unfolding items2 by (simp add: items_sum_def)
  finally have t2: "totalAmount (calls ?ord (take 2 ?cs)) = Fin 25" .
  from int3 abs3 have ok3: "integer_items (items (calls ?ord (take 3 ?cs)))
      \<and> items_abs_sum (items (calls ?ord (take 3 ?cs))) \<le> 2 ^ 53"
    unfolding items3 by (rule conjI)
  from total_after_each_call [of ?cs ?ord, THEN spec, of 3, THEN mp, OF three]
  have "integer_items (items (calls ?ord (take 3 ?cs)))
      \<and> items_abs_sum (items (calls ?ord (take 3 ?cs))) \<le> 2 ^ 53 \<longrightarrow>
    totalAmount (calls ?ord (take 3 ?cs)) = Fin (items_sum (items (calls ?ord (take 3 ?cs))))"
    by (rule conjunct2)
  from this ok3
  have "totalAmount (calls ?ord (take 3 ?cs)) = Fin (items_sum (items (calls ?ord (take 3 ?cs))))"
    by (rule mp)
  also have "\<dots> = Fin 5" unfolding items3 by (simp add: items_sum_def)
  finally have t3: "totalAmount (calls ?ord (take 3 ?cs)) = Fin 5" .
  from t2 t3 two three int2 int3 abs2 abs3 show ?thesis by (intro conjI) simp_all
qed

text \<open>
  The claim as first stated equates \<open>totalAmount\<close> with the sum of \<open>quantity * price\<close>
  for every order. With one item of quantity 3 and price 3002399751580331 the sum is
  \<open>2^53 + 1\<close> and the stored total \<open>2^53\<close>; with quantity 3 and the price 0.1 (the double
  nearest to it) the stored total is 0.30000000000000004, above three times the price.
\<close>

theorem total_rounds_counterexample:
  "is_double (Fin 3) \<and> is_double (Fin 3002399751580331)
   \<and> items (snd (addItem (new_Order ''o1'' ''c1'')
        \<lparr>productId = ''p1'', quantity = Fin 3, price = Fin 3002399751580331\<rparr>))
       = [\<lparr>productId = ''p1'', quantity = Fin 3, price = Fin 3002399751580331\<rparr>]
   \<and> items_sum [\<lparr>productId = ''p1'', quantity = Fin 3, price = Fin 3002399751580331\<rparr>]
       = 9007199254740993
   \<and> totalAmount (snd (addItem (new_Order ''o1'' ''c1'')
        \<lparr>productId = ''p1'', quantity = Fin 3, price = Fin 3002399751580331\<rparr>))
       = Fin 9007199254740992
   \<and> is_double (Fin (3602879701896397 / 36028797018963968))
   \<and> items_sum [\<lparr>productId = ''p2'', quantity = Fin 3,
                  price = Fin (3602879701896397 / 36028797018963968)\<rparr>]
       = 10808639105689191 / 36028797018963968
   \<and> totalAmount (snd (addItem (new_Order ''o2'' ''c1'')
        \<lparr>productId = ''p2'', quantity = Fin 3,
         price = Fin (3602879701896397 / 36028797018963968)\<rparr>))
       = Fin (1351079888211149 / 4503599627370496)
   \<and> (10808639105689191 / 36028797018963968 :: rat) < 1351079888211149 / 4503599627370496"
  by (simp add: is_double_def addItem_def recalculateTotal_def reduce_total_def new_Order_def
      new_Order_with_def items_sum_def rnd_exact rnd_2p53_plus_1 rnd_tenth rnd_three_tenths
      rnd_three_tenths_again)

text \<open>
  C10, as the code has it. \<open>removeItem\<close> never throws. It keeps exactly the line items
  whose \<open>productId\<close> differs from the argument, in their order: every matching item goes,
  not only the first, and every other item stays. When no item matches, the item list is
  unchanged and \<open>totalAmount\<close> is set to the total recomputed from those items: it is
  unchanged exactly when it already was that total, and then the whole order is unchanged.
\<close>

theorem removeItem_removes_all:
  "fst (removeItem ord pid) = None
   \<and> items (snd (removeItem ord pid)) = filter (\<lambda>item. productId item \<noteq> pid) (items ord)
   \<and> (\<forall>item \<in> set (items (snd (removeItem ord pid))). productId item \<noteq> pid)
   \<and> (\<forall>item \<in> set (items ord). productId item \<noteq> pid \<longrightarrow> item \<in> set (items (snd (removeItem ord pid))))
   \<and> ((\<forall>item \<in> set (items ord). productId item \<noteq> pid) \<longrightarrow>
         items (snd (removeItem ord pid)) = items ord
         \<and> totalAmount (snd (removeItem ord pid)) = reduce_total (items ord)
         \<and> (totalAmount (snd (removeItem ord pid)) = totalAmount ord \<longleftrightarrow> total_consistent ord)
         \<and> (total_consistent ord \<longrightarrow> snd (removeItem ord pid) = ord))"
proof -
  have its: "items (snd (removeItem ord pid)) = filter (\<lambda>item. productId item \<noteq> pid) (items ord)"
    by (simp add: removeItem_def recalculateTotal_def)
  have nomatch: "items (snd (removeItem ord pid)) = items ord
         \<and> totalAmount (snd (removeItem ord pid)) = reduce_total (items ord)
         \<and> (totalAmount (snd (removeItem ord pid)) = totalAmount ord \<longleftrightarrow> total_consistent ord)
         \<and> (total_consistent ord \<longrightarrow> snd (removeItem ord pid) = ord)"
    if "\<forall>item \<in> set (items ord). productId item \<noteq> pid"
  proof -
    from that have "filter (\<lambda>item. productId item \<noteq> pid) (items ord) = items ord"
      by (simp add: filter_id_conv)
    then have r: "snd (removeItem ord pid) = recalculateTotal ord"
      by (simp add: removeItem_def)
    then show ?thesis
      by (auto simp: recalculateTotal_idle) (simp_all add: recalculateTotal_def total_consistent_def)
  qed
  have "fst (removeItem ord pid) = None" by (simp add: removeItem_def)
  moreover note its
  moreover have "\<forall>item \<in> set (items (snd (removeItem ord pid))). productId item \<noteq> pid"
    by (simp add: its)
  moreover have "\<forall>item \<in> set (items ord). productId item \<noteq> pid
      \<longrightarrow> item \<in> set (items (snd (removeItem ord pid)))"
    by (simp add: its)
  ultimately show ?thesis using nomatch by blast
qed

theorem removeItem_removes_all_witness:
  "items (snd (removeItem
       \<lparr>order_id = ''o1'', customerId = ''c1'', status = Pending,
        items = [\<lparr>productId = ''p1'', quantity = Fin 2, price = Fin 10\<rparr>,
                 \<lparr>productId = ''p2'', quantity = Fin 1, price = Fin 5\<rparr>,
                 \<lparr>productId = ''p1'', quantity = Fin 1, price = Fin 12\<rparr>],
        totalAmount = Fin 37\<rparr> ''p1''))
     = [\<lparr>productId = ''p2'', quantity = Fin 1, price = Fin 5\<rparr>]
   \<and> ''p9'' \<notin> set (map productId (items
          \<lparr>order_id = ''o1'', customerId = ''c1'', status = Pending,
           items = [\<lparr>productId = ''p1'', quantity = Fin 2, price = Fin 10\<rparr>,
                    \<lparr>productId = ''p2'', quantity = Fin 1, price = Fin 5\<rparr>,
                    \<lparr>productId = ''p1'', quantity = Fin 1, price = Fin 12\<rparr>],
           totalAmount = Fin 37\<rparr>))
   \<and> total_consistent
         \<lparr>order_id = ''o1'', customerId = ''c1'', status = Pending,
          items = [\<lparr>productId = ''p1'', quantity = Fin 2, price = Fin 10\<rparr>,
                   \<lparr>productId = ''p2'', quantity = Fin 1, price = Fin 5\<rparr>,
                   \<lparr>productId = ''p1'', quantity = Fin 1, price = Fin 12\<rparr>],
          totalAmount = Fin 37\<rparr>
   \<and> snd (removeItem
         \<lparr>order_id = ''o1'', customerId = ''c1'', status = Pending,
          items = [\<lparr>productId = ''p1'', quantity = Fin 2, price = Fin 10\<rparr>,
                   \<lparr>productId = ''p2'', quantity = Fin 1, price = Fin 5\<rparr>,
                   \<lparr>productId = ''p1'', quantity = Fin 1, price = Fin 12\<rparr>],
          totalAmount = Fin 37\<rparr> ''p9'')
       = \<lparr>order_id = ''o1'', customerId = ''c1'', status = Pending,
          items = [\<lparr>productId = ''p1'', quantity = Fin 2, price = Fin 10\<rparr>,
                   \<lparr>productId = ''p2'', quantity = Fin 1, price = Fin 5\<rparr>,
                   \<lparr>productId = ''p1'', quantity = Fin 1, price = Fin 12\<rparr>],
          totalAmount = Fin 37\<rparr>"
proof -
  let ?ord = "\<lparr>order_id = ''o1'', customerId = ''c1'', status = Pending,
          items = [\<lparr>productId = ''p1'', quantity = Fin 2, price = Fin 10\<rparr>,
                   \<lparr>productId = ''p2'', quantity = Fin 1, price = Fin 5\<rparr>,
                   \<lparr>productId = ''p1'', quantity = Fin 1, price = Fin 12\<rparr>],
          totalAmount = Fin 37\<rparr>"
  have none: "\<forall>item \<in> set (items ?ord). productId item \<noteq> ''p9''" by simp
  have none': "''p9'' \<notin> set (map productId (items ?ord))" by simp
  have cons: "total_consistent ?ord"
    by (simp add: total_consistent_def reduce_total_def rnd_exact)
  from removeItem_removes_all [of ?ord "''p1''"]
  have "items (snd (removeItem ?ord ''p1''))
      = filter (\<lambda>item. productId item \<noteq> ''p1'') (items ?ord)"
    by blast
  then have gone: "items (snd (removeItem ?ord ''p1'')) = [\<lparr>productId = ''p2'', quantity = Fin 1, price = Fin 5\<rparr>]"
    by simp
  from removeItem_removes_all [of ?ord "''p9''"] none cons
  have "snd (removeItem ?ord ''p9'') = ?ord" by blast
  with gone none' cons show ?thesis by blast
qed

text \<open>
  The claim as first stated leaves \<open>totalAmount\<close> unchanged for every order when no item
  matches. An order whose \<open>totalAmount\<close> is not the total of its items, as the order
  repository can build from a response, has it overwritten: 999 becomes 20.
\<close>

theorem removeItem_total_counterexample:
  "''p9'' \<notin> set (map productId (items
       \<lparr>order_id = ''o1'', customerId = ''c1'', status = Pending,
        items = [\<lparr>productId = ''p1'', quantity = Fin 2, price = Fin 10\<rparr>],
        totalAmount = Fin 999\<rparr>))
   \<and> removeItem
       \<lparr>order_id = ''o1'', customerId = ''c1'', status = Pending,
        items = [\<lparr>productId = ''p1'', quantity = Fin 2, price = Fin 10\<rparr>],
        totalAmount = Fin 999\<rparr> ''p9''
     = (None,
        \<lparr>order_id = ''o1'', customerId = ''c1'', status = Pending,
         items = [\<lparr>productId = ''p1'', quantity = Fin 2, price = Fin 10\<rparr>],
         totalAmount = Fin 20\<rparr>)
   \<and> Fin 20 \<noteq> Fin 999"
  by (simp add: removeItem_def recalculateTotal_def reduce_total_def rnd_exact)

section \<open>Money\<close>

text \<open>
  C7, as the code has it. \<open>Money.create\<close> throws for every negative amount, and for
  every currency code whose length is not 3; these are its only failures, so a code of
  exactly 3 characters is accepted with a non-negative amount whatever the characters are.
  \<open>add\<close> throws whenever the two currencies differ. In particular
  \<open>Money.create(-1, "USD")\<close> throws, and so does
  \<open>Money.create(5, "USD").add(Money.create(5, "EUR"))\<close>.
\<close>

theorem Money_rejects:
  "(num_less a (Fin 0) \<longrightarrow> Money_create a c = Inl MontoNegativo)
   \<and> (length c \<noteq> 3 \<longrightarrow> (\<exists>e. Money_create a c = Inl e))
   \<and> ((\<exists>e. Money_create a c = Inl e) \<longleftrightarrow> num_less a (Fin 0) \<or> length c \<noteq> 3)
   \<and> (\<not> num_less a (Fin 0) \<and> length c = 3 \<longrightarrow>
         Money_create a c = Inr \<lparr>amount = a, currency = c\<rparr>)
   \<and> (currency m \<noteq> currency m' \<longrightarrow> Money_add m m' = Inl MonedasDiferentes)
   \<and> Money_create (Fin (- 1)) ''USD'' = Inl MontoNegativo
   \<and> and_then (Money_create (Fin 5) ''USD'')
        (\<lambda>this. and_then (Money_create (Fin 5) ''EUR'') (\<lambda>other. Money_add this other))
       = Inl MonedasDiferentes"
proof -
  have "Money_create (Fin (- 1)) ''USD'' = Inl MontoNegativo"
    by (simp add: Money_create_def)
  moreover have "and_then (Money_create (Fin 5) ''USD'')
        (\<lambda>this. and_then (Money_create (Fin 5) ''EUR'') (\<lambda>other. Money_add this other))
       = Inl MonedasDiferentes"
    by (simp add: Money_create_def Money_add_def and_then_def)
  moreover have "num_less a (Fin 0) \<longrightarrow> Money_create a c = Inl MontoNegativo"
    and "length c \<noteq> 3 \<longrightarrow> (\<exists>e. Money_create a c = Inl e)"
    and "(\<exists>e. Money_create a c = Inl e) \<longleftrightarrow> num_less a (Fin 0) \<or> length c \<noteq> 3"
    and "\<not> num_less a (Fin 0) \<and> length c = 3 \<longrightarrow>
         Money_create a c = Inr \<lparr>amount = a, currency = c\<rparr>"
    and "currency m \<noteq> currency m' \<longrightarrow> Money_add m m' = Inl MonedasDiferentes"
    by (auto simp: Money_create_def Money_add_def)
  ultimately show ?thesis by blast
qed

theorem Money_rejects_witness:
  "num_less (Fin (- 5)) (Fin 0) \<and> Money_create (Fin (- 5)) ''EUR'' = Inl MontoNegativo
   \<and> length ''EURO'' \<noteq> 3 \<and> (\<exists>e. Money_create (Fin 7) ''EURO'' = Inl e)
   \<and> \<not> num_less (Fin 7) (Fin 0) \<and> length ''EUR'' = 3
   \<and> Money_create (Fin 7) ''EUR'' = Inr \<lparr>amount = Fin 7, currency = ''EUR''\<rparr>
   \<and> currency \<lparr>amount = Fin 5, currency = ''USD''\<rparr> \<noteq> currency \<lparr>amount = Fin 5, currency = ''EUR''\<rparr>
   \<and> Money_add \<lparr>amount = Fin 5, currency = ''USD''\<rparr> \<lparr>amount = Fin 5, currency = ''EUR''\<rparr>
       = Inl MonedasDiferentes"
proof -
  have neg: "num_less (Fin (- 5)) (Fin 0)" by simp
  have len: "length ''EURO'' \<noteq> 3" by simp
  have fine: "\<not> num_less (Fin 7) (Fin 0) \<and> length ''EUR'' = 3" by simp
  have cur: "currency \<lparr>amount = Fin 5, currency = ''USD''\<rparr> \<noteq> currency \<lparr>amount = Fin 5, currency = ''EUR''\<rparr>"
    by simp
  from Money_rejects [of "Fin (- 5)" "''EUR''"] neg
  have 1: "Money_create (Fin (- 5)) ''EUR'' = Inl MontoNegativo" by blast
  from Money_rejects [of "Fin 7" "''EURO''"] len
  have 2: "\<exists>e. Money_create (Fin 7) ''EURO'' = Inl e" by blast
  from Money_rejects [of "Fin 7" "''EUR''"] fine
  have 3: "Money_create (Fin 7) ''EUR'' = Inr \<lparr>amount = Fin 7, currency = ''EUR''\<rparr>" by blast
  from Money_rejects [of _ _ "\<lparr>amount = Fin 5, currency = ''USD''\<rparr>" "\<lparr>amount = Fin 5, currency = ''EUR''\<rparr>"] cur
  have 4: "Money_add \<lparr>amount = Fin 5, currency = ''USD''\<rparr> \<lparr>amount = Fin 5, currency = ''EUR''\<rparr>
       = Inl MonedasDiferentes"
    by blast
  from neg 1 len 2 fine 3 cur 4 show ?thesis by blast
qed

text \<open>
  The claim as first stated has \<open>Money.create\<close> fail for every malformed currency code.
  The factory only counts the characters: \<open>"123"\<close> and three blanks are not 3-letter
  codes, and both are accepted.
\<close>

theorem Money_create_counterexample:
  "\<not> three_letter_code ''123''
   \<and> Money_create (Fin 5) ''123'' = Inr \<lparr>amount = Fin 5, currency = ''123''\<rparr>
   \<and> \<not> three_letter_code ''   ''
   \<and> Money_create (Fin 5) ''   '' = Inr \<lparr>amount = Fin 5, currency = ''   ''\<rparr>"
  by (simp add: three_letter_code_def is_letter_def Money_create_def)

section \<open>Authentication\<close>

lemma AuthenticateUser_known:
  "findByEmail w e = Some u \<Longrightarrow>
     AuthenticateUser_execute svc w e pw
       = (svc e pw, w\<lparr>auth_calls := auth_calls w @ [(e, pw)]\<rparr>)"
  by (simp add: AuthenticateUser_execute_def authenticate_def)

text \<open>
  C8. When the user repository has no user for the email, \<open>AuthenticateUserUseCase.execute\<close>
  throws "Usuario no encontrado" and the authentication service is not invoked: the record
  of \<open>authenticate\<close> calls, and the rest of the world, is as before the call.
\<close>

theorem AuthenticateUser_unknown_email:
  assumes "findByEmail w e = None"
  shows "AuthenticateUser_execute svc w e pw = (Inl UsuarioNoEncontrado, w)
         \<and> auth_calls (snd (AuthenticateUser_execute svc w e pw)) = auth_calls w"
  using assms by (simp add: AuthenticateUser_execute_def)

theorem AuthenticateUser_unknown_email_witness:
  "findByEmail
     \<lparr>products = Map.empty, orders = Map.empty,
      users = [''ana@tienda.com'' \<mapsto>
                 \<lparr>user_id = ''u1'', email = ''ana@tienda.com'', user_name = ''Ana'', role = Customer\<rparr>],
      auth_calls = []\<rparr> ''luis@tienda.com'' = None
   \<and> fst (AuthenticateUser_execute (\<lambda>e pw. Inr ''token'')
       \<lparr>products = Map.empty, orders = Map.empty,
        users = [''ana@tienda.com'' \<mapsto>
                   \<lparr>user_id = ''u1'', email = ''ana@tienda.com'', user_name = ''Ana'', role = Customer\<rparr>],
        auth_calls = []\<rparr> ''luis@tienda.com'' ''secreto'') = Inl UsuarioNoEncontrado
   \<and> auth_calls (snd (AuthenticateUser_execute (\<lambda>e pw. Inr ''token'')
       \<lparr>products = Map.empty, orders = Map.empty,
        users = [''ana@tienda.com'' \<mapsto>
                   \<lparr>user_id = ''u1'', email = ''ana@tienda.com'', user_name = ''Ana'', role = Customer\<rparr>],
        auth_calls = []\<rparr> ''luis@tienda.com'' ''secreto'')) = []"
proof -
  let ?w = "\<lparr>products = Map.empty, orders = Map.empty,
        users = [''ana@tienda.com'' \<mapsto>
                   \<lparr>user_id = ''u1'', email = ''ana@tienda.com'', user_name = ''Ana'', role = Customer\<rparr>],
        auth_calls = []\<rparr>"
  have absent: "findByEmail ?w ''luis@tienda.com'' = None"
    by (simp add: findByEmail_def)
  from AuthenticateUser_unknown_email [OF absent, of "\<lambda>e pw. Inr ''token''" "''secreto''"] absent
  show ?thesis by simp
qed

section \<open>Creating an order\<close>

lemma execute_loop_orders: "orders (snd (execute_loop w ord reqs)) = orders w"
  by (induction reqs arbitrary: w ord)
     (auto simp: product_save_def decreaseStock_def addItem_def split: option.splits)

lemma execute_loop_append:
  "execute_loop w ord (pre @ rest) =
     (case execute_loop w ord pre of
        (Inl e, w') \<Rightarrow> (Inl e, w')
      | (Inr ord', w') \<Rightarrow> execute_loop w' ord' rest)"
  by (induction pre arbitrary: w ord)
     (auto simp: decreaseStock_def addItem_def split: option.splits)

lemma execute_loop_unavailable:
  assumes "unavailable w item"
  shows "\<exists>e. execute_loop w ord (item # post) = (Inl e, w)"
  using assms by (auto simp: unavailable_def num_greater_def split: option.splits)

lemma CreateOrder_failure_saves_no_order:
  "fst (CreateOrder_execute w now cid reqs) = Inl e \<Longrightarrow>
     orders (snd (CreateOrder_execute w now cid reqs)) = orders w"
  using execute_loop_orders [of w "new_Order now cid" reqs]
  by (auto simp: CreateOrder_execute_def split: prod.splits sum.splits)

text \<open>
  C2. Let the requests before \<open>item\<close> be served: an order for them alone succeeds, and
  leaves the product repository as in \<open>w1\<close>. If \<open>item\<close> cannot be served there (its
  product is absent, or its quantity exceeds the product's stock), then \<open>execute\<close> on the
  whole list throws, whatever follows \<open>item\<close>; the order repository is as it was before
  the call, so the order is not saved; and the product repository is exactly as the
  earlier requests left it: their stock decrements stay saved, nothing is rolled back.
\<close>

theorem CreateOrder_fails_without_rollback:
  assumes "CreateOrder_execute w now cid pre = (Inr ord1, w1)"
    and "unavailable w1 item"
  shows "(\<exists>e. fst (CreateOrder_execute w now cid (pre @ item # post)) = Inl e)
         \<and> orders (snd (CreateOrder_execute w now cid (pre @ item # post))) = orders w
         \<and> products (snd (CreateOrder_execute w now cid (pre @ item # post))) = products w1"
proof -
  from assms(1) obtain w0 where
    loop: "execute_loop w (new_Order now cid) pre = (Inr ord1, w0)" and w1: "w1 = order_save w0 ord1"
    by (auto simp: CreateOrder_execute_def split: prod.splits sum.splits)
  from w1 have same: "products w1 = products w0" by (simp add: order_save_def)
  with assms(2) have "unavailable w0 item"
    by (simp add: unavailable_def product_findById_def)
  then obtain e where "execute_loop w0 ord1 (item # post) = (Inl e, w0)"
    using execute_loop_unavailable by blast
  with loop have "execute_loop w (new_Order now cid) (pre @ item # post) = (Inl e, w0)"
    by (simp add: execute_loop_append)
  then have res: "CreateOrder_execute w now cid (pre @ item # post) = (Inl e, w0)"
    by (simp add: CreateOrder_execute_def)
  from loop execute_loop_orders [of w "new_Order now cid" pre] have "orders w0 = orders w"
    by simp
  with res same show ?thesis by simp
qed

theorem CreateOrder_fails_without_rollback_witness:
  "CreateOrder_execute
       \<lparr>products = [''p1'' \<mapsto> \<lparr>product_id = ''p1'', product_name = ''Mate'', product_price = Fin 10, stock = Fin 5\<rparr>],
        orders = Map.empty, users = Map.empty, auth_calls = []\<rparr>
       ''1700000000000'' ''c1'' [\<lparr>req_productId = ''p1'', req_quantity = Fin 2\<rparr>]
     = (Inr \<lparr>order_id = ''1700000000000'', customerId = ''c1'', status = Pending,
             items = [\<lparr>productId = ''p1'', quantity = Fin 2, price = Fin 10\<rparr>], totalAmount = Fin 20\<rparr>,
        \<lparr>products = [''p1'' \<mapsto> \<lparr>product_id = ''p1'', product_name = ''Mate'', product_price = Fin 10, stock = Fin 3\<rparr>],
         orders = [''1700000000000'' \<mapsto>
                     \<lparr>order_id = ''1700000000000'', customerId = ''c1'', status = Pending,
                      items = [\<lparr>productId = ''p1'', quantity = Fin 2, price = Fin 10\<rparr>], totalAmount = Fin 20\<rparr>],
         users = Map.empty, auth_calls = []\<rparr>)
   \<and> unavailable
        \<lparr>products = [''p1'' \<mapsto> \<lparr>product_id = ''p1'', product_name = ''Mate'', product_price = Fin 10, stock = Fin 3\<rparr>],
         orders = [''1700000000000'' \<mapsto>
                     \<lparr>order_id = ''1700000000000'', customerId = ''c1'', status = Pending,
                      items = [\<lparr>productId = ''p1'', quantity = Fin 2, price = Fin 10\<rparr>], totalAmount = Fin 20\<rparr>],
         users = Map.empty, auth_calls = []\<rparr>
        \<lparr>req_productId = ''p1'', req_quantity = Fin 4\<rparr>
   \<and> (\<exists>e. fst (CreateOrder_execute
       \<lparr>products = [''p1'' \<mapsto> \<lparr>product_id = ''p1'', product_name = ''Mate'', product_price = Fin 10, stock = Fin 5\<rparr>],
        orders = Map.empty, users = Map.empty, auth_calls = []\<rparr>
       ''1700000000000'' ''c1''
       ([\<lparr>req_productId = ''p1'', req_quantity = Fin 2\<rparr>] @ \<lparr>req_productId = ''p1'', req_quantity = Fin 4\<rparr>
          # [\<lparr>req_productId = ''p1'', req_quantity = Fin 1\<rparr>])) = Inl e)
   \<and> orders (snd (CreateOrder_execute
       \<lparr>products = [''p1'' \<mapsto> \<lparr>product_id = ''p1'', product_name = ''Mate'', product_price = Fin 10, stock = Fin 5\<rparr>],
        orders = Map.empty, users = Map.empty, auth_calls = []\<rparr>
       ''1700000000000'' ''c1''
       ([\<lparr>req_productId = ''p1'', req_quantity = Fin 2\<rparr>] @ \<lparr>req_productId = ''p1'', req_quantity = Fin 4\<rparr>
          # [\<lparr>req_productId = ''p1'', req_quantity = Fin 1\<rparr>]))) = Map.empty
   \<and> products (snd (CreateOrder_execute
       \<lparr>products = [''p1'' \<mapsto> \<lparr>product_id = ''p1'', product_name = ''Mate'', product_price = Fin 10, stock = Fin 5\<rparr>],
        orders = Map.empty, users = Map.empty, auth_calls = []\<rparr>
       ''1700000000000'' ''c1''
       ([\<lparr>req_productId = ''p1'', req_quantity = Fin 2\<rparr>] @ \<lparr>req_productId = ''p1'', req_quantity = Fin 4\<rparr>
          # [\<lparr>req_productId = ''p1'', req_quantity = Fin 1\<rparr>])))
     = [''p1'' \<mapsto> \<lparr>product_id = ''p1'', product_name = ''Mate'', product_price = Fin 10, stock = Fin 3\<rparr>]"
proof -
  let ?w = "\<lparr>products = [''p1'' \<mapsto> \<lparr>product_id = ''p1'', product_name = ''Mate'', product_price = Fin 10, stock = Fin 5\<rparr>],
        orders = Map.empty, users = Map.empty, auth_calls = []\<rparr>"
  let ?ord1 = "\<lparr>order_id = ''1700000000000'', customerId = ''c1'', status = Pending,
             items = [\<lparr>productId = ''p1'', quantity = Fin 2, price = Fin 10\<rparr>], totalAmount = Fin 20\<rparr>"
  let ?w1 = "\<lparr>products = [''p1'' \<mapsto> \<lparr>product_id = ''p1'', product_name = ''Mate'', product_price = Fin 10, stock = Fin 3\<rparr>],
         orders = [''1700000000000'' \<mapsto> ?ord1], users = Map.empty, auth_calls = []\<rparr>"
  have served: "CreateOrder_execute ?w ''1700000000000'' ''c1'' [\<lparr>req_productId = ''p1'', req_quantity = Fin 2\<rparr>]
      = (Inr ?ord1, ?w1)"
    by (simp add: CreateOrder_execute_def new_Order_def new_Order_with_def product_findById_def
        decreaseStock_def addItem_def recalculateTotal_def reduce_total_def product_save_def
        order_save_def num_greater_def num_sub_Fin rnd_exact)
  have short: "unavailable ?w1 \<lparr>req_productId = ''p1'', req_quantity = Fin 4\<rparr>"
    by (simp add: unavailable_def product_findById_def num_greater_def)
  from CreateOrder_fails_without_rollback [OF served short, of "[\<lparr>req_productId = ''p1'', req_quantity = Fin 1\<rparr>]"]
    served short
  show ?thesis by simp
qed

text \<open>
  C3. With product \<open>p1\<close> in the repository at price 10 and stock 5, \<open>execute\<close> on the
  single request (\<open>p1\<close>, quantity 2) returns an order whose only line item is
  (\<open>p1\<close>, 2, 10) and whose \<open>totalAmount\<close> is 20; it saves \<open>p1\<close> with stock 3 (and nothing
  else in the product repository), and saves the order.
\<close>

theorem CreateOrder_example:
  assumes "products w ''p1'' =
             Some \<lparr>product_id = ''p1'', product_name = n, product_price = Fin 10, stock = Fin 5\<rparr>"
  shows "\<exists>ord w'.
           CreateOrder_execute w now cid [\<lparr>req_productId = ''p1'', req_quantity = Fin 2\<rparr>] = (Inr ord, w')
           \<and> items ord = [\<lparr>productId = ''p1'', quantity = Fin 2, price = Fin 10\<rparr>]
           \<and> totalAmount ord = Fin 20
           \<and> order_id ord = now \<and> customerId ord = cid \<and> status ord = Pending
           \<and> products w' = (products w)(''p1'' \<mapsto>
                \<lparr>product_id = ''p1'', product_name = n, product_price = Fin 10, stock = Fin 3\<rparr>)
           \<and> orders w' = (orders w)(now \<mapsto> ord)"
  using assms
  by (simp add: CreateOrder_execute_def new_Order_def new_Order_with_def product_findById_def
      decreaseStock_def addItem_def recalculateTotal_def reduce_total_def product_save_def
      order_save_def num_greater_def num_sub_Fin rnd_exact)

theorem CreateOrder_example_witness:
  "products
     \<lparr>products = [''p1'' \<mapsto> \<lparr>product_id = ''p1'', product_name = ''Yerba'', product_price = Fin 10, stock = Fin 5\<rparr>,
                  ''p2'' \<mapsto> \<lparr>product_id = ''p2'', product_name = ''Bombilla'', product_price = Fin 7, stock = Fin 1\<rparr>],
      orders = Map.empty, users = Map.empty, auth_calls = []\<rparr> ''p1''
     = Some \<lparr>product_id = ''p1'', product_name = ''Yerba'', product_price = Fin 10, stock = Fin 5\<rparr>
   \<and> (\<exists>ord w'.
         CreateOrder_execute
           \<lparr>products = [''p1'' \<mapsto> \<lparr>product_id = ''p1'', product_name = ''Yerba'', product_price = Fin 10, stock = Fin 5\<rparr>,
                        ''p2'' \<mapsto> \<lparr>product_id = ''p2'', product_name = ''Bombilla'', product_price = Fin 7, stock = Fin 1\<rparr>],
            orders = Map.empty, users = Map.empty, auth_calls = []\<rparr>
           ''1700000000000'' ''c1'' [\<lparr>req_productId = ''p1'', req_quantity = Fin 2\<rparr>] = (Inr ord, w')
         \<and> items ord = [\<lparr>productId = ''p1'', quantity = Fin 2, price = Fin 10\<rparr>]
         \<and> totalAmount ord = Fin 20
         \<and> products w' ''p1''
             = Some \<lparr>product_id = ''p1'', product_name = ''Yerba'', product_price = Fin 10, stock = Fin 3\<rparr>)"
proof -
  let ?w = "\<lparr>products = [''p1'' \<mapsto> \<lparr>product_id = ''p1'', product_name = ''Yerba'', product_price = Fin 10, stock = Fin 5\<rparr>,
                        ''p2'' \<mapsto> \<lparr>product_id = ''p2'', product_name = ''Bombilla'', product_price = Fin 7, stock = Fin 1\<rparr>],
            orders = Map.empty, users = Map.empty, auth_calls = []\<rparr>"
  have held: "products ?w ''p1''
     = Some \<lparr>product_id = ''p1'', product_name = ''Yerba'', product_price = Fin 10, stock = Fin 5\<rparr>"
    by simp
  from CreateOrder_example [OF held, of "''1700000000000''" "''c1''"]
  obtain ord w' where
    "CreateOrder_execute ?w ''1700000000000'' ''c1'' [\<lparr>req_productId = ''p1'', req_quantity = Fin 2\<rparr>] = (Inr ord, w')"
    "items ord = [\<lparr>productId = ''p1'', quantity = Fin 2, price = Fin 10\<rparr>]"
    "totalAmount ord = Fin 20"
    "products w' = (products ?w)(''p1'' \<mapsto>
        \<lparr>product_id = ''p1'', product_name = ''Yerba'', product_price = Fin 10, stock = Fin 3\<rparr>)"
    by blast
  then have "CreateOrder_execute ?w ''1700000000000'' ''c1'' [\<lparr>req_productId = ''p1'', req_quantity = Fin 2\<rparr>] = (Inr ord, w')
         \<and> items ord = [\<lparr>productId = ''p1'', quantity = Fin 2, price = Fin 10\<rparr>]
         \<and> totalAmount ord = Fin 20
         \<and> products w' ''p1''
             = Some \<lparr>product_id = ''p1'', product_name = ''Yerba'', product_price = Fin 10, stock = Fin 3\<rparr>"
    by simp
  then have "\<exists>ord w'. CreateOrder_execute ?w ''1700000000000'' ''c1'' [\<lparr>req_productId = ''p1'', req_quantity = Fin 2\<rparr>] = (Inr ord, w')
         \<and> items ord = [\<lparr>productId = ''p1'', quantity = Fin 2, price = Fin 10\<rparr>]
         \<and> totalAmount ord = Fin 20
         \<and> products w' ''p1''
             = Some \<lparr>product_id = ''p1'', product_name = ''Yerba'', product_price = Fin 10, stock = Fin 3\<rparr>"
    by blast
  with held show ?thesis by blast
qed

end
